theory Spec2Isabelle
  imports Main "HOL-Library.Word"
begin

section \<open>Bytes, big numbers and public keys\<close>

text \<open>
  The client in \<^verbatim>\<open>src/client/trustedproperties.ts\<close> builds byte buffers with three
  libraries: \<^verbatim>\<open>bn.js\<close> (big numbers), \<^verbatim>\<open>bs58\<close> (the text form of a key) and
  \<^verbatim>\<open>borsh\<close> (the account schema). Their functions are modelled here as far as the
  client calls them, each under the name it has in the library.
\<close>

type_synonym byte = "8 word"

text \<open>
  A \<^verbatim>\<open>PublicKey\<close> holds one big number \<^verbatim>\<open>_bn\<close> of at most 32 bytes (the constructor
  throws on more), so a key is a 256-bit word.
\<close>

type_synonym PublicKey = "256 word"

datatype error =
    TypeError
  | RangeError
  | AssertionError
  | BorshError
  | Error string
  | SendTransactionError
  | Unmodelled

definition bind_err :: "error + 'a \<Rightarrow> ('a \<Rightarrow> error + 'b) \<Rightarrow> error + 'b" where
  "bind_err m f = (case m of Inl e \<Rightarrow> Inl e | Inr x \<Rightarrow> f x)"

text \<open>\<open>le_bytes len n\<close>: the \<open>len\<close> low bytes of \<open>n\<close>, least significant first.\<close>

fun le_bytes :: "nat \<Rightarrow> nat \<Rightarrow> byte list" where
  "le_bytes 0 n = []"
| "le_bytes (Suc len) n = of_nat (n mod 256) # le_bytes len (n div 256)"

text \<open>\<^verbatim>\<open>BN.prototype.byteLength\<close>: the number of bytes the number needs, 0 for zero.\<close>

fun byteLength :: "nat \<Rightarrow> nat" where
  "byteLength n = (if n = 0 then 0 else Suc (byteLength (n div 256)))"

declare byteLength.simps [simp del]

text \<open>
  \<^verbatim>\<open>BN.prototype.toArray(endian, length)\<close> for \<^verbatim>\<open>endian = "le"\<close>. The second argument
  is a length in bytes: the result is zero-padded to it, and the call asserts that the
  number fits (\<^verbatim>\<open>byteLength <= reqLength\<close>, \<^verbatim>\<open>reqLength > 0\<close>, where a missing or zero
  \<^verbatim>\<open>length\<close> falls back to \<^verbatim>\<open>Math.max(1, byteLength)\<close>).
\<close>

definition toArray_le :: "nat \<Rightarrow> nat \<Rightarrow> error + byte list" where
  "toArray_le n len =
     (let reqLength = (if len = 0 then max 1 (byteLength n) else len)
      in if byteLength n \<le> reqLength \<and> 0 < reqLength
         then Inr (le_bytes reqLength n)
         else Inl AssertionError)"

text \<open>
  \<^verbatim>\<open>PublicKey.toBytes\<close> (\<^verbatim>\<open>toBuffer\<close>): the number as exactly 32 bytes, most significant
  first, zero-padded on the left.
\<close>

definition toBytes :: "PublicKey \<Rightarrow> byte list" where
  "toBytes k = rev (le_bytes 32 (unat k))"

subsection \<open>Base 58\<close>

definition ALPHABET :: string where
  "ALPHABET = ''123456789ABCDEFGHJKLMNPQRSTUVWXYZabcdefghijkmnopqrstuvwxyz''"

text \<open>The value of a byte string read most significant byte first.\<close>

definition be_value :: "byte list \<Rightarrow> nat" where
  "be_value bs = foldl (\<lambda>acc b. acc * 256 + unat b) 0 bs"

text \<open>The base-58 digits of a number, most significant first; none for zero.\<close>

fun digits58 :: "nat \<Rightarrow> nat list" where
  "digits58 n = (if n = 0 then [] else digits58 (n div 58) @ [n mod 58])"

declare digits58.simps [simp del]

text \<open>
  \<^verbatim>\<open>bs58.encode\<close> (base-x): one \<^verbatim>\<open>'1'\<close> for each leading zero byte, then the digits of
  the remaining number in the alphabet, without leading zero digits.
\<close>

definition bs58_encode :: "byte list \<Rightarrow> string" where
  "bs58_encode source =
     replicate (length (takeWhile (\<lambda>b. b = 0) source)) (CHR ''1'')
     @ map (\<lambda>d. ALPHABET ! d) (digits58 (be_value source))"

text \<open>\<^verbatim>\<open>PublicKey.toBase58\<close>; \<^verbatim>\<open>PublicKey.toString\<close> returns the same string.\<close>

definition toBase58 :: "PublicKey \<Rightarrow> string" where
  "toBase58 k = bs58_encode (toBytes k)"

definition toString :: "PublicKey \<Rightarrow> string" where
  "toString k = toBase58 k"

fun indexOf :: "'a list \<Rightarrow> 'a \<Rightarrow> nat option" where
  "indexOf [] c = None"
| "indexOf (x # xs) c = (if x = c then Some 0 else map_option Suc (indexOf xs c))"

text \<open>The bytes of a number, most significant first, none for zero.\<close>

fun be_digits256 :: "nat \<Rightarrow> byte list" where
  "be_digits256 n = (if n = 0 then [] else be_digits256 (n div 256) @ [of_nat (n mod 256)])"

declare be_digits256.simps [simp del]

fun value58 :: "nat \<Rightarrow> string \<Rightarrow> nat option" where
  "value58 acc [] = Some acc"
| "value58 acc (c # cs) =
     (case indexOf ALPHABET c of
        None \<Rightarrow> None
      | Some d \<Rightarrow> value58 (acc * 58 + d) cs)"

text \<open>
  \<^verbatim>\<open>bs58.decode\<close>: a zero byte for each leading \<^verbatim>\<open>'1'\<close>, then the bytes of the number
  the remaining digits spell; a character outside the alphabet throws.
\<close>

definition bs58_decode :: "string \<Rightarrow> error + byte list" where
  "bs58_decode s =
     (case value58 0 s of
        None \<Rightarrow> Inl (Error ''Non-base58 character'')
      | Some n \<Rightarrow>
          Inr (replicate (length (takeWhile (\<lambda>c. c = CHR ''1'') s)) 0 @ be_digits256 n))"

text \<open>
  \<^verbatim>\<open>new PublicKey(value)\<close> for a string: the decoded text must be 32 bytes long.
\<close>

definition PublicKey_of_string :: "string \<Rightarrow> error + PublicKey" where
  "PublicKey_of_string s =
     bind_err (bs58_decode s) (\<lambda>decoded.
       if length decoded \<noteq> 32 then Inl (Error ''Invalid public key input'')
       else Inr (of_nat (be_value decoded)))"


section \<open>The agreement account and its schema\<close>

text \<open>
  A JavaScript value, as far as the client and the schema codec meet one: \<^verbatim>\<open>undefined\<close>,
  a number (integers only), a string (an Isabelle string holds its UTF-8 code units), a
  \<^verbatim>\<open>PublicKey\<close> object and a \<^verbatim>\<open>BN\<close> object. The static types of the class say
  \<^verbatim>\<open>number\<close> and \<^verbatim>\<open>PublicKey\<close>; they are erased at run time, and the codec reads and
  writes properties by name.
\<close>

datatype jsval =
    Undefined
  | Number int
  | Str string
  | Key PublicKey
  | BN nat

record AgreementAccount =
  status :: jsval
  owner_pubkey :: jsval
  tenant_pubkey :: jsval
  security_escrow_pubkey :: jsval
  security_deposit :: jsval
  rent_amount :: jsval
  duration :: jsval
  remaining_payments :: jsval
  start_month :: jsval
  start_year :: jsval
  duration_extension_request :: jsval

text \<open>
  The constructor: the field initialisers (\<^verbatim>\<open>0\<close> and \<^verbatim>\<open>new PublicKey(0)\<close>), then, when
  an object of fields is given, a copy of each named property of it. An object is its
  property lookup, \<open>Undefined\<close> for a property it does not have.
\<close>

definition new_AgreementAccount :: "(string \<Rightarrow> jsval) option \<Rightarrow> AgreementAccount" where
  "new_AgreementAccount flds =
     (case flds of
        None \<Rightarrow>
          \<lparr>status = Number 0, owner_pubkey = Key 0, tenant_pubkey = Key 0,
           security_escrow_pubkey = Key 0, security_deposit = Number 0,
           rent_amount = Number 0, duration = Number 0, remaining_payments = Number 0,
           start_month = Number 0, start_year = Number 0,
           duration_extension_request = Number 0\<rparr>
      | Some f \<Rightarrow>
          \<lparr>status = f ''status'', owner_pubkey = f ''owner_pubkey'',
           tenant_pubkey = f ''tenant_pubkey'',
           security_escrow_pubkey = f ''security_escrow_pubkey'',
           security_deposit = f ''security_deposit'', rent_amount = f ''rent_amount'',
           duration = f ''duration'', remaining_payments = f ''remaining_payments'',
           start_month = f ''start_month'', start_year = f ''start_year'',
           duration_extension_request = f ''duration_extension_request''\<rparr>)"

text \<open>
  \<^verbatim>\<open>obj[fieldName]\<close> on an instance of the class: the field of that name, \<open>Undefined\<close>
  for a name the instance has no property for.
\<close>

definition property :: "AgreementAccount \<Rightarrow> string \<Rightarrow> jsval" where
  "property obj fieldName =
     (if fieldName = ''status'' then status obj
      else if fieldName = ''owner_pubkey'' then owner_pubkey obj
      else if fieldName = ''tenant_pubkey'' then tenant_pubkey obj
      else if fieldName = ''security_escrow_pubkey'' then security_escrow_pubkey obj
      else if fieldName = ''security_deposit'' then security_deposit obj
      else if fieldName = ''rent_amount'' then rent_amount obj
      else if fieldName = ''duration'' then duration obj
      else if fieldName = ''remaining_payments'' then remaining_payments obj
      else if fieldName = ''start_month'' then start_month obj
      else if fieldName = ''start_year'' then start_year obj
      else if fieldName = ''duration_extension_request'' then duration_extension_request obj
      else Undefined)"

text \<open>
  The schema: the field list of the one struct entry of the map, names and types as the
  source writes them.
\<close>

definition AgreementSchema :: "(string \<times> string) list" where
  "AgreementSchema =
     [(''pub status'', ''u8''),
      (''owner_pubkey'', ''string''),
      (''tenant_pubkey'', ''string''),
      (''security_escrow_pubkey'', ''string''),
      (''security_deposit'', ''u64''),
      (''rent_amount'', ''u64''),
      (''duration'', ''u8''),
      (''remaining_payments'', ''u8''),
      (''start_month'', ''u8''),
      (''start_year'', ''u16''),
      (''duration_extension_request'', ''u8'')]"

subsection \<open>Writing (borsh \<^verbatim>\<open>BinaryWriter\<close>)\<close>

text \<open>
  \<^verbatim>\<open>buf.writeUInt8(value)\<close>, \<^verbatim>\<open>writeUInt16LE\<close>, \<^verbatim>\<open>writeUInt32LE\<close>: the value is
  converted with unary plus; a number outside the range throws a range error;
  \<^verbatim>\<open>undefined\<close> converts to NaN, which passes both comparisons and is stored as 0.
  Converting a string or an object to a number is outside this model (\<open>Unmodelled\<close>).
\<close>

definition writeUInt :: "nat \<Rightarrow> jsval \<Rightarrow> error + byte list" where
  "writeUInt width v =
     (case v of
        Number n \<Rightarrow>
          if n < 0 \<or> 256 ^ width \<le> n then Inl RangeError
          else Inr (le_bytes width (nat n))
      | Undefined \<Rightarrow> Inr (le_bytes width 0)
      | _ \<Rightarrow> Inl Unmodelled)"

definition writeU8 :: "jsval \<Rightarrow> error + byte list" where
  "writeU8 v = writeUInt 1 v"

definition writeU16 :: "jsval \<Rightarrow> error + byte list" where
  "writeU16 v = writeUInt 2 v"

definition writeU32 :: "jsval \<Rightarrow> error + byte list" where
  "writeU32 v = writeUInt 4 v"

text \<open>
  \<^verbatim>\<open>writeU64(value)\<close> is \<^verbatim>\<open>new BN(value).toArray('le', 8)\<close>. \<^verbatim>\<open>new BN\<close> takes the
  sign off a number and asserts that what is left is below \<^verbatim>\<open>2 ^ 53\<close>, reads
  \<^verbatim>\<open>undefined\<close> as 0, returns a \<^verbatim>\<open>BN\<close> as it is and asserts that any other object has
  a numeric \<^verbatim>\<open>length\<close>, which a \<^verbatim>\<open>PublicKey\<close> has not. \<^verbatim>\<open>toArray\<close> writes the
  magnitude, so a negative number is written as its absolute value. Strings are outside
  this model.
\<close>

definition writeU64 :: "jsval \<Rightarrow> error + byte list" where
  "writeU64 v =
     (case v of
        Number n \<Rightarrow>
          if 2 ^ 53 \<le> \<bar>n\<bar> then Inl AssertionError
          else toArray_le (nat \<bar>n\<bar>) 8
      | Undefined \<Rightarrow> toArray_le 0 8
      | BN b \<Rightarrow> toArray_le b 8
      | Key k \<Rightarrow> Inl AssertionError
      | Str s \<Rightarrow> Inl Unmodelled)"

text \<open>
  \<^verbatim>\<open>Buffer.from(value, 'utf8')\<close>: the UTF-8 bytes of a string. A value that is not a
  string, a buffer or array-like throws a type error: \<^verbatim>\<open>undefined\<close>, a number, and a
  \<^verbatim>\<open>PublicKey\<close>, which has neither a \<^verbatim>\<open>length\<close> nor a primitive value. (A \<^verbatim>\<open>BN\<close> has
  a \<^verbatim>\<open>length\<close> and is read as an array; that case is outside this model.)
\<close>

definition Buffer_from :: "jsval \<Rightarrow> error + byte list" where
  "Buffer_from v =
     (case v of
        Str s \<Rightarrow> Inr (map of_char s)
      | BN b \<Rightarrow> Inl Unmodelled
      | _ \<Rightarrow> Inl TypeError)"

text \<open>\<^verbatim>\<open>writeString(str)\<close>: the byte length as a \<^verbatim>\<open>u32\<close>, then the bytes.\<close>

definition writeString :: "jsval \<Rightarrow> error + byte list" where
  "writeString str =
     bind_err (Buffer_from str) (\<lambda>b.
     bind_err (writeU32 (Number (int (length b)))) (\<lambda>l.
       Inr (l @ b)))"

text \<open>
  \<^verbatim>\<open>serializeField\<close> for a field type given by name: the writer method
  \<^verbatim>\<open>write<Type>\<close> is called; a name without such a method is a type error.
\<close>

definition serializeField :: "jsval \<Rightarrow> string \<Rightarrow> error + byte list" where
  "serializeField v fieldType =
     (if fieldType = ''u8'' then writeU8 v
      else if fieldType = ''u16'' then writeU16 v
      else if fieldType = ''u32'' then writeU32 v
      else if fieldType = ''u64'' then writeU64 v
      else if fieldType = ''string'' then writeString v
      else Inl TypeError)"

text \<open>
  \<^verbatim>\<open>serializeStruct\<close>: each field of the schema in order, its value read from the object
  under the schema's field name.
\<close>

fun serializeStruct :: "(string \<times> string) list \<Rightarrow> AgreementAccount \<Rightarrow> error + byte list" where
  "serializeStruct [] obj = Inr []"
| "serializeStruct ((fieldName, fieldType) # flds) obj =
     bind_err (serializeField (property obj fieldName) fieldType) (\<lambda>b.
     bind_err (serializeStruct flds obj) (\<lambda>bs.
       Inr (b @ bs)))"

definition serialize :: "(string \<times> string) list \<Rightarrow> AgreementAccount \<Rightarrow> error + byte list" where
  "serialize schema obj = serializeStruct schema obj"

text \<open>The expected size of each agreement account: the length of the encoded default instance.\<close>

definition AGREEMENT_SIZE :: "error + nat" where
  "AGREEMENT_SIZE =
     bind_err (serialize AgreementSchema (new_AgreementAccount None)) (\<lambda>b. Inr (length b))"

subsection \<open>Reading (borsh \<^verbatim>\<open>BinaryReader\<close>)\<close>

text \<open>
  The reader is the part of the buffer from its offset on. Every read past the end is a
  \<^verbatim>\<open>BorshError\<close>.
\<close>

definition readBuffer :: "nat \<Rightarrow> byte list \<Rightarrow> error + byte list \<times> byte list" where
  "readBuffer len rd =
     (if length rd < len then Inl BorshError else Inr (take len rd, drop len rd))"

text \<open>The value of a byte string read least significant byte first.\<close>

definition le_value :: "byte list \<Rightarrow> nat" where
  "le_value bs = foldr (\<lambda>b acc. unat b + 256 * acc) bs 0"

definition readUInt :: "nat \<Rightarrow> byte list \<Rightarrow> error + nat \<times> byte list" where
  "readUInt width rd =
     bind_err (readBuffer width rd) (\<lambda>(b, rd'). Inr (le_value b, rd'))"

text \<open>
  Well-formed UTF-8: \<open>utf8_first\<close> is the length of the well-formed sequence at the head
  of the bytes, if there is one.
\<close>

definition in_range :: "nat \<Rightarrow> nat \<Rightarrow> byte list \<Rightarrow> nat \<Rightarrow> bool" where
  "in_range lo hi bs i = (i < length bs \<and> lo \<le> unat (bs ! i) \<and> unat (bs ! i) \<le> hi)"

definition utf8_first :: "byte list \<Rightarrow> nat option" where
  "utf8_first bs =
     (if in_range 0x00 0x7F bs 0 then Some 1
      else if in_range 0xC2 0xDF bs 0 \<and> in_range 0x80 0xBF bs 1 then Some 2
      else if in_range 0xE0 0xE0 bs 0 \<and> in_range 0xA0 0xBF bs 1 \<and> in_range 0x80 0xBF bs 2
        then Some 3
      else if in_range 0xE1 0xEC bs 0 \<and> in_range 0x80 0xBF bs 1 \<and> in_range 0x80 0xBF bs 2
        then Some 3
      else if in_range 0xED 0xED bs 0 \<and> in_range 0x80 0x9F bs 1 \<and> in_range 0x80 0xBF bs 2
        then Some 3
      else if in_range 0xEE 0xEF bs 0 \<and> in_range 0x80 0xBF bs 1 \<and> in_range 0x80 0xBF bs 2
        then Some 3
      else if in_range 0xF0 0xF0 bs 0 \<and> in_range 0x90 0xBF bs 1 \<and> in_range 0x80 0xBF bs 2
              \<and> in_range 0x80 0xBF bs 3
        then Some 4
      else if in_range 0xF1 0xF3 bs 0 \<and> in_range 0x80 0xBF bs 1 \<and> in_range 0x80 0xBF bs 2
              \<and> in_range 0x80 0xBF bs 3
        then Some 4
      else if in_range 0xF4 0xF4 bs 0 \<and> in_range 0x80 0x8F bs 1 \<and> in_range 0x80 0xBF bs 2
              \<and> in_range 0x80 0xBF bs 3
        then Some 4
      else None)"

function utf8_valid :: "byte list \<Rightarrow> bool" where
  "utf8_valid [] = True"
| "utf8_valid (b # bs) =
     (case utf8_first (b # bs) of
        None \<Rightarrow> False
      | Some k \<Rightarrow> utf8_valid (drop k (b # bs)))"
  by pat_completeness auto
termination
  by (relation "measure length") (auto simp: utf8_first_def split: if_splits)

text \<open>
  \<^verbatim>\<open>textDecoder.decode(buf)\<close> of a \<^verbatim>\<open>TextDecoder('utf-8', {fatal: true})\<close>: ill-formed
  input throws; a byte order mark at the start is dropped.
\<close>

definition textDecoder_decode :: "byte list \<Rightarrow> string option" where
  "textDecoder_decode buf =
     (if utf8_valid buf
      then Some (map (\<lambda>b. char_of (unat b))
                  (if take 3 buf = [0xEF, 0xBB, 0xBF] then drop 3 buf else buf))
      else None)"

definition readString :: "byte list \<Rightarrow> error + jsval \<times> byte list" where
  "readString rd =
     bind_err (readUInt 4 rd) (\<lambda>(len, rd').
     bind_err (readBuffer len rd') (\<lambda>(buf, rd'').
       case textDecoder_decode buf of
         None \<Rightarrow> Inl BorshError
       | Some s \<Rightarrow> Inr (Str s, rd'')))"

text \<open>
  \<^verbatim>\<open>deserializeField\<close>: \<^verbatim>\<open>read<Type>\<close> of the reader. The small integers come back as
  numbers, a \<^verbatim>\<open>u64\<close> as a \<^verbatim>\<open>BN\<close>.
\<close>

definition deserializeField :: "string \<Rightarrow> byte list \<Rightarrow> error + jsval \<times> byte list" where
  "deserializeField fieldType rd =
     (if fieldType = ''u8'' then bind_err (readUInt 1 rd) (\<lambda>(n, rd'). Inr (Number (int n), rd'))
      else if fieldType = ''u16'' then bind_err (readUInt 2 rd) (\<lambda>(n, rd'). Inr (Number (int n), rd'))
      else if fieldType = ''u32'' then bind_err (readUInt 4 rd) (\<lambda>(n, rd'). Inr (Number (int n), rd'))
      else if fieldType = ''u64'' then bind_err (readUInt 8 rd) (\<lambda>(n, rd'). Inr (BN n, rd'))
      else if fieldType = ''string'' then readString rd
      else Inl TypeError)"

text \<open>
  The loop of \<^verbatim>\<open>deserializeStruct\<close>: \<^verbatim>\<open>result[fieldName] = deserializeField(...)\<close> for
  each field in order; \<open>result\<close> is the object built so far.
\<close>

fun deserializeFields ::
  "(string \<times> string) list \<Rightarrow> (string \<Rightarrow> jsval) \<Rightarrow> byte list
     \<Rightarrow> error + (string \<Rightarrow> jsval) \<times> byte list" where
  "deserializeFields [] result rd = Inr (result, rd)"
| "deserializeFields ((fieldName, fieldType) # flds) result rd =
     bind_err (deserializeField fieldType rd) (\<lambda>(v, rd').
       deserializeFields flds (result(fieldName := v)) rd')"

definition deserializeStruct ::
  "(string \<times> string) list \<Rightarrow> byte list \<Rightarrow> error + AgreementAccount \<times> byte list" where
  "deserializeStruct schema rd =
     bind_err (deserializeFields schema (\<lambda>_. Undefined) rd) (\<lambda>(result, rd').
       Inr (new_AgreementAccount (Some result), rd'))"

text \<open>
  \<^verbatim>\<open>borsh.deserialize(schema, AgreementAccount, buffer)\<close>: bytes left over after the last
  field are a \<^verbatim>\<open>BorshError\<close>.
\<close>

definition deserialize :: "(string \<times> string) list \<Rightarrow> byte list \<Rightarrow> error + AgreementAccount" where
  "deserialize schema buffer =
     bind_err (deserializeStruct schema buffer) (\<lambda>(result, rd).
       if rd \<noteq> [] then Inl BorshError else Inr result)"


section \<open>Deriving the agreement address\<close>

text \<open>
  The seed of the agreement account: the tag, then the owner's and the tenant's key in
  text form, with nothing between them.
\<close>

definition AGREEMENT_SEED :: "PublicKey \<Rightarrow> PublicKey \<Rightarrow> string" where
  "AGREEMENT_SEED ownerPubkey tenantPubkey =
     ''agreement'' @ toString ownerPubkey @ toString tenantPubkey"

text \<open>
  \<^verbatim>\<open>PublicKey.createWithSeed(fromPublicKey, seed, programId)\<close>: the key made of the
  SHA-256 digest of the base key's bytes, the seed's bytes and the program's bytes. The
  hash is a library function; it is the argument \<open>sha256\<close>, from the hashed bytes to the
  digest read as a key.
\<close>

definition createWithSeed_buffer :: "PublicKey \<Rightarrow> string \<Rightarrow> PublicKey \<Rightarrow> byte list" where
  "createWithSeed_buffer fromPublicKey seed programId =
     toBytes fromPublicKey @ map of_char seed @ toBytes programId"

definition createWithSeed ::
  "(byte list \<Rightarrow> PublicKey) \<Rightarrow> PublicKey \<Rightarrow> string \<Rightarrow> PublicKey \<Rightarrow> PublicKey" where
  "createWithSeed sha256 fromPublicKey seed programId =
     sha256 (createWithSeed_buffer fromPublicKey seed programId)"

section \<open>The session: connection, instructions, module variables\<close>

record AccountInfo =
  executable :: bool

record AccountMeta =
  pubkey :: PublicKey
  isSigner :: bool
  isWritable :: bool

text \<open>
  The two instructions the client builds. \<open>CreateAccountWithSeed\<close> carries the
  parameters of \<^verbatim>\<open>SystemProgram.createAccountWithSeed\<close> in the order \<^verbatim>\<open>fromPubkey\<close>,
  \<^verbatim>\<open>basePubkey\<close>, \<^verbatim>\<open>seed\<close>, \<^verbatim>\<open>newAccountPubkey\<close>, \<^verbatim>\<open>lamports\<close>, \<^verbatim>\<open>space\<close>,
  \<^verbatim>\<open>programId\<close>; \<open>TransactionInstruction\<close> carries \<^verbatim>\<open>keys\<close>, \<^verbatim>\<open>programId\<close>, \<^verbatim>\<open>data\<close>.
\<close>

datatype Instruction =
    CreateAccountWithSeed PublicKey PublicKey string PublicKey nat nat PublicKey
  | TransactionInstruction "AccountMeta list" PublicKey "byte list"

record Transaction =
  instructions :: "Instruction list"
  signers :: "PublicKey list"

text \<open>
  The network boundary as the client uses it: the account metadata at an address
  (\<open>None\<close> for \<^verbatim>\<open>null\<close>), the rent-exemption minimum for a byte length, and whether a
  submitted transaction is confirmed (otherwise \<^verbatim>\<open>sendAndConfirmTransaction\<close> throws).
\<close>

record Connection =
  getAccountInfo :: "PublicKey \<Rightarrow> AccountInfo option"
  getMinimumBalanceForRentExemption :: "nat \<Rightarrow> nat"
  sendAndConfirmTransaction :: "Transaction \<Rightarrow> bool"

text \<open>
  The module variables; \<open>None\<close> is a variable not assigned yet. Of the payer's keypair
  only the public key is read.
\<close>

record Session =
  connection :: "Connection option"
  payer :: "PublicKey option"
  programId :: "PublicKey option"
  agreementPubkey :: "PublicKey option"
  ownerPubkey :: "PublicKey option"
  tenantPubkey :: "PublicKey option"

text \<open>
  The files \<^verbatim>\<open>checkProgram\<close> looks at: the resolved path of the program's keypair file,
  the file as \<^verbatim>\<open>createKeypairFromFile\<close> returns it (the error message when it throws,
  else the public key), and whether the program's shared object exists.
\<close>

record Files =
  PROGRAM_KEYPAIR_PATH :: string
  createKeypairFromFile :: "string + PublicKey"
  existsSync :: bool

text \<open>\<^verbatim>\<open>SYSVAR_RENT_PUBKEY\<close>, in text form \<^verbatim>\<open>SysvarRent111111111111111111111111111111111\<close>.\<close>

definition SYSVAR_RENT_PUBKEY :: PublicKey where
  "SYSVAR_RENT_PUBKEY = 3010411246019284437244212147455409835011261068170932596721577831542904848384"

section \<open>Provisioning: \<^verbatim>\<open>checkProgram\<close>\<close>

text \<open>
  \<^verbatim>\<open>checkProgram\<close> returns the transactions it submitted, in order, the error it threw,
  if any, and the module variables as it leaves them; an assignment made before a throw
  stays.

  \<open>checkProgram_with\<close> is the body of the function for a given value of the module
  constant \<open>AGREEMENT_SIZE\<close>.
\<close>

definition checkProgram_with ::
  "(byte list \<Rightarrow> PublicKey) \<Rightarrow> nat \<Rightarrow> Files \<Rightarrow> Session
     \<Rightarrow> Transaction list \<times> error option \<times> Session" where
  "checkProgram_with sha256 agreement_size files s =
     (case createKeypairFromFile files of
        Inl errMsg \<Rightarrow>
          ([],
           Some (Error (''Failed to read program keypair at '' @ [CHR 0x27]
                        @ PROGRAM_KEYPAIR_PATH files @ [CHR 0x27] @ '' due to error: ''
                        @ errMsg
                        @ ''. Program may need to be deployed with `npm run deploy`'')),
           s)
      | Inr programKey \<Rightarrow>
     let s1 = s\<lparr>programId := Some programKey\<rparr> in
     (case connection s of
        None \<Rightarrow> ([], Some TypeError, s1)
      | Some c \<Rightarrow>
     (case getAccountInfo c programKey of
        None \<Rightarrow>
          if existsSync files
          then ([], Some (Error ''Program needs to be deployed with `npm run deploy`''), s1)
          else ([], Some (Error ''Program needs to be built and deployed''), s1)
      | Some programInfo \<Rightarrow>
          if \<not> executable programInfo
          then ([], Some (Error ''Program is not executable''), s1)
          else
     (case PublicKey_of_string ''EJBCNzigNdKMiCueXNaYn3CccMJqmB8DLPZKgfeTWQrh'' of
        Inl e \<Rightarrow> ([], Some e, s1)
      | Inr owner \<Rightarrow>
     let s2 = s1\<lparr>ownerPubkey := Some owner\<rparr> in
     (case PublicKey_of_string ''EGikG1URSBTi3Dc2AHwTV4HBDWu1KmbcD63rTbYWv9Cu'' of
        Inl e \<Rightarrow> ([], Some e, s2)
      | Inr tenant \<Rightarrow>
     let s3 = s2\<lparr>tenantPubkey := Some tenant\<rparr> in
     (case payer s of
        None \<Rightarrow> ([], Some TypeError, s3)
      | Some payerKey \<Rightarrow>
          let seed = AGREEMENT_SEED owner tenant;
              agreement = createWithSeed sha256 payerKey seed programKey;
              s4 = s3\<lparr>agreementPubkey := Some agreement\<rparr>
          in
            (case getAccountInfo c agreement of
               Some agreementAccount \<Rightarrow> ([], None, s4)
             | None \<Rightarrow>
                 let lamports = getMinimumBalanceForRentExemption c agreement_size;
                     transaction =
                       \<lparr>instructions =
                          [CreateAccountWithSeed payerKey payerKey seed agreement lamports
                             agreement_size programKey],
                        signers = [payerKey]\<rparr>
                 in if sendAndConfirmTransaction c transaction
                    then ([transaction], None, s4)
                    else ([transaction], Some SendTransactionError, s4))))))))"

text \<open>
  \<^verbatim>\<open>checkProgram\<close> as the client runs it. The constant \<open>AGREEMENT_SIZE\<close> is computed
  when the module is loaded, before any function of it can be called; when its
  initialiser throws, the error is all that happens: nothing is submitted and no module
  variable is assigned.
\<close>

definition checkProgram ::
  "(byte list \<Rightarrow> PublicKey) \<Rightarrow> Files \<Rightarrow> Session
     \<Rightarrow> Transaction list \<times> error option \<times> Session" where
  "checkProgram sha256 files s =
     (case AGREEMENT_SIZE of
        Inl e \<Rightarrow> ([], Some e, s)
      | Inr agreement_size \<Rightarrow> checkProgram_with sha256 agreement_size files s)"

section \<open>The initialize instruction: \<^verbatim>\<open>initContract\<close>\<close>

text \<open>
  The data of the instruction: \<^verbatim>\<open>Uint8Array.of\<close> the instruction index 0, the bytes of
  the owner, the tenant and the agreement key, and the five amounts, each through
  \<^verbatim>\<open>new BN(x).toArray("le", n)\<close> with \<open>n\<close> = 64, 64, 8, 8, 16.
\<close>

definition initContract_data :: "PublicKey \<Rightarrow> PublicKey \<Rightarrow> PublicKey \<Rightarrow> error + byte list" where
  "initContract_data owner tenant agreement =
     bind_err (toArray_le 1000 64) (\<lambda>deposit.
     bind_err (toArray_le 500 64) (\<lambda>rentAmount.
     bind_err (toArray_le 11 8) (\<lambda>duration.
     bind_err (toArray_le 1 8) (\<lambda>start_month.
     bind_err (toArray_le 2022 16) (\<lambda>start_year.
       Inr (0 # toBytes owner @ toBytes tenant @ toBytes agreement
              @ deposit @ rentAmount @ duration @ start_month @ start_year))))))"

definition initContract_instruction ::
  "PublicKey \<Rightarrow> PublicKey \<Rightarrow> PublicKey \<Rightarrow> PublicKey \<Rightarrow> error + Instruction" where
  "initContract_instruction owner tenant agreement program =
     bind_err (initContract_data owner tenant agreement) (\<lambda>d.
       Inr (TransactionInstruction
              [\<lparr>pubkey = agreement, isSigner = False, isWritable = True\<rparr>,
               \<lparr>pubkey = agreement, isSigner = False, isWritable = True\<rparr>,
               \<lparr>pubkey = SYSVAR_RENT_PUBKEY, isSigner = False, isWritable = False\<rparr>]
              program d))"

text \<open>
  \<^verbatim>\<open>initContract\<close> returns the transactions it submitted and the error it threw, if any.
  A module variable that was never assigned makes the call throw before anything is
  submitted.
\<close>

definition initContract :: "Session \<Rightarrow> Transaction list \<times> (error + unit)" where
  "initContract s =
     (case (agreementPubkey s, ownerPubkey s, tenantPubkey s, programId s, connection s, payer s) of
        (Some agreement, Some owner, Some tenant, Some program, Some c, Some payerKey) \<Rightarrow>
          (case initContract_instruction owner tenant agreement program of
             Inl e \<Rightarrow> ([], Inl e)
           | Inr instruction \<Rightarrow>
               let transaction = \<lparr>instructions = [instruction], signers = [payerKey]\<rparr>
               in if sendAndConfirmTransaction c transaction
                  then ([transaction], Inr ())
                  else ([transaction], Inl SendTransactionError))
      | _ \<Rightarrow> ([], Inl TypeError))"


section \<open>Auxiliary definitions for the proofs\<close>

text \<open>The number a list of base-58 digits spells, most significant digit first.\<close>

definition horner58 :: "nat list \<Rightarrow> nat" where
  "horner58 ds = foldl (\<lambda>acc d. acc * 58 + d) 0 ds"

text \<open>The digits of a number in the alphabet.\<close>

definition text58 :: "nat \<Rightarrow> string" where
  "text58 n = map (\<lambda>d. ALPHABET ! d) (digits58 n)"

text \<open>
  The two keys \<^verbatim>\<open>checkProgram\<close> builds from text, as numbers (see \<open>owner_literal\<close> and
  \<open>tenant_literal\<close> below).
\<close>

definition ownerPubkey_value :: PublicKey where
  "ownerPubkey_value = 89357111230538540455519446409496520932709237870236781018993200798703400307910"

definition tenantPubkey_value :: PublicKey where
  "tenantPubkey_value = 89188397975466254446035603587187133792764040584017978595931686333023616237002"

text \<open>
  \<^verbatim>\<open>decode(encode(x))\<close> under the account schema: the record is written with
  \<^verbatim>\<open>borsh.serialize\<close> and the bytes are read back with \<^verbatim>\<open>borsh.deserialize\<close>.
\<close>

definition decode_encode :: "AgreementAccount \<Rightarrow> error + AgreementAccount" where
  "decode_encode x = bind_err (serialize AgreementSchema x) (deserialize AgreementSchema)"

text \<open>A string of characters below 128, each one byte in UTF-8.\<close>

definition ascii :: "string \<Rightarrow> bool" where
  "ascii s = (\<forall>c \<in> set s. (of_char c :: nat) < 128)"

text \<open>
  The integer field types and their widths in bytes; a schema of such fields only, and the
  number of bytes its fields take together.
\<close>

definition field_width :: "string \<Rightarrow> nat" where
  "field_width fieldType =
     (if fieldType = ''u8'' then 1
      else if fieldType = ''u16'' then 2
      else if fieldType = ''u32'' then 4
      else if fieldType = ''u64'' then 8
      else 0)"

definition integer_types :: "(string \<times> string) list \<Rightarrow> bool" where
  "integer_types schema =
     (\<forall>(fieldName, fieldType) \<in> set schema. fieldType \<in> {''u8'', ''u16'', ''u32'', ''u64''})"

definition schema_width :: "(string \<times> string) list \<Rightarrow> nat" where
  "schema_width schema = sum_list (map (\<lambda>(fieldName, fieldType). field_width fieldType) schema)"

text \<open>A schema all of whose field types have a reader.\<close>

definition known_types :: "(string \<times> string) list \<Rightarrow> bool" where
  "known_types schema =
     (\<forall>(fieldName, fieldType) \<in> set schema.
        fieldType \<in> {''u8'', ''u16'', ''u32'', ''u64'', ''string''})"

text \<open>
  Concrete surroundings for the examples: a stand-in for the hash, a network that knows the
  program at key 9 and, when \<open>created\<close>, an account at every address, the program's
  keypair file, and a session with a connection and the payer 5.
\<close>

definition example_sha256 :: "byte list \<Rightarrow> PublicKey" where
  "example_sha256 bs = 7"

definition example_connection :: "bool \<Rightarrow> Connection" where
  "example_connection created =
     \<lparr>getAccountInfo = (\<lambda>k. if k = 9 \<or> created then Some \<lparr>executable = True\<rparr> else None),
      getMinimumBalanceForRentExemption = (\<lambda>n. 7 * n),
      sendAndConfirmTransaction = (\<lambda>_. True)\<rparr>"

definition example_files :: Files where
  "example_files =
     \<lparr>PROGRAM_KEYPAIR_PATH =
        ''/dist/program/trusted_properties_marketplace_solana_rust-keypair.json'',
      createKeypairFromFile = Inr 9, existsSync = True\<rparr>"

definition example_session :: "bool \<Rightarrow> Session" where
  "example_session created =
     \<lparr>connection = Some (example_connection created), payer = Some 5, programId = None,
      agreementPubkey = None, ownerPubkey = None, tenantPubkey = None\<rparr>"

text \<open>The module variables as \<^verbatim>\<open>checkProgram\<close> leaves them in the example, with the address 7.\<close>

definition example_initialized :: Session where
  "example_initialized =
     (example_session True)
       \<lparr>programId := Some 9, ownerPubkey := Some ownerPubkey_value,
        tenantPubkey := Some tenantPubkey_value, agreementPubkey := Some 7\<rparr>"

section \<open>Facts about the byte and text encodings\<close>

lemma length_le_bytes [simp]: "length (le_bytes len n) = len"
  by (induction len arbitrary: n) simp_all

lemma length_toBytes [simp]: "length (toBytes k) = 32"
  by (simp add: toBytes_def)

lemma be_value_snoc: "be_value (xs @ [b]) = be_value xs * 256 + unat b"
  by (simp add: be_value_def)

lemma be_value_rev_le_bytes: "be_value (rev (le_bytes len n)) = n mod 256 ^ len"
proof (induction len arbitrary: n)
  case 0
  show ?case by (simp add: be_value_def)
next
  case (Suc len)
  have u: "unat (of_nat (n mod 256) :: byte) = n mod 256"
    by (simp add: unat_of_nat)
  have "be_value (rev (le_bytes (Suc len) n)) = (n div 256) mod 256 ^ len * 256 + n mod 256"
    by (simp add: be_value_snoc Suc u)
  also have "\<dots> = n mod 256 ^ Suc len"
    by (simp add: mod_mult2_eq)
  finally show ?case .
qed

lemma unat_key_less: "unat (k :: PublicKey) < 256 ^ 32"
proof -
  have "unat k < 2 ^ 256" using unsigned_less [of k] by simp
  then show ?thesis by simp
qed

lemma be_value_toBytes: "be_value (toBytes k) = unat k"
  using unat_key_less [of k] by (simp add: toBytes_def be_value_rev_le_bytes)

lemma byteLength_le_iff: "byteLength n \<le> j \<longleftrightarrow> n < 256 ^ j"
proof (induction n arbitrary: j rule: byteLength.induct)
  case (1 n)
  show ?case
  proof (cases "n = 0")
    case True
    then show ?thesis by (simp add: byteLength.simps)
  next
    case False
    show ?thesis
    proof (cases j)
      case 0
      with False show ?thesis by (simp add: byteLength.simps)
    next
      case (Suc j')
      have "byteLength n \<le> Suc j' \<longleftrightarrow> byteLength (n div 256) \<le> j'"
        using False by (simp add: byteLength.simps)
      also have "\<dots> \<longleftrightarrow> n div 256 < 256 ^ j'"
        using 1 False by simp
      also have "\<dots> \<longleftrightarrow> n < 256 ^ Suc j'"
        by (simp add: div_less_iff_less_mult mult.commute)
      finally show ?thesis using Suc by simp
    qed
  qed
qed

lemma byteLength_eqI: "n < 256 ^ j \<Longrightarrow> (j = 0 \<or> 256 ^ (j - 1) \<le> n) \<Longrightarrow> byteLength n = j"
proof -
  assume a: "n < 256 ^ j" and b: "j = 0 \<or> 256 ^ (j - 1) \<le> n"
  from a have le: "byteLength n \<le> j" by (simp add: byteLength_le_iff)
  show ?thesis
  proof (cases "j = 0")
    case True
    with le show ?thesis by simp
  next
    case False
    with b have "\<not> n < 256 ^ (j - 1)" by simp
    then have "\<not> byteLength n \<le> j - 1" by (simp add: byteLength_le_iff)
    with le show ?thesis by simp
  qed
qed


lemma le_bytes_zero: "le_bytes len 0 = replicate len 0"
  by (induction len) simp_all

lemma takeWhile_replicate_snoc:
  "P x \<Longrightarrow> \<not> P y \<Longrightarrow> takeWhile P (replicate n x @ [y]) = replicate n x"
  by (induction n) simp_all

lemma takeWhile_zero_rev_le_bytes:
  "n < 256 ^ len \<Longrightarrow>
   length (takeWhile (\<lambda>b. b = 0) (rev (le_bytes len n))) = len - byteLength n"
proof (induction len arbitrary: n)
  case 0
  then show ?case by simp
next
  case (Suc len)
  let ?P = "\<lambda>b::byte. b = 0"
  let ?xs = "rev (le_bytes len (n div 256))"
  let ?b = "of_nat (n mod 256) :: byte"
  have m: "n div 256 < 256 ^ len"
    using Suc.prems by (simp add: div_less_iff_less_mult mult.commute)
  have ih: "length (takeWhile ?P ?xs) = len - byteLength (n div 256)"
    using Suc.IH [OF m] .
  have ub: "unat ?b = n mod 256" by (simp add: unat_of_nat)
  show ?case
  proof (cases "n = 0")
    case True
    have "rev (le_bytes (Suc len) 0) = replicate (Suc len) 0"
      by (simp only: le_bytes_zero rev_replicate)
    then show ?thesis using True by (simp add: byteLength.simps)
  next
    case False
    then have bl: "byteLength n = Suc (byteLength (n div 256))"
      by (simp add: byteLength.simps)
    show ?thesis
    proof (cases "n div 256 = 0")
      case True
      then have "n mod 256 = n" by simp
      with False ub have "unat ?b \<noteq> 0" by simp
      then have nz: "?b \<noteq> 0" by (metis unat_0)
      have "takeWhile ?P (?xs @ [?b]) = ?xs"
        using True nz by (simp add: le_bytes_zero takeWhile_replicate_snoc)
      then show ?thesis using True bl by (simp add: byteLength.simps)
    next
      case nz: False
      then have "0 < byteLength (n div 256)" by (simp add: byteLength.simps)
      moreover have "byteLength (n div 256) \<le> len" using m by (simp add: byteLength_le_iff)
      ultimately have lt: "length (takeWhile ?P ?xs) < length ?xs" using ih by simp
      have "takeWhile ?P ?xs \<noteq> ?xs"
      proof
        assume "takeWhile ?P ?xs = ?xs"
        then have "length (takeWhile ?P ?xs) = length ?xs" by (rule arg_cong)
        with lt show False by (simp only: less_irrefl)
      qed
      then obtain x where "x \<in> set ?xs" "\<not> ?P x"
        using takeWhile_eq_all_conv [of ?P ?xs] by blast
      then have "takeWhile ?P (?xs @ [?b]) = takeWhile ?P ?xs"
        by (rule takeWhile_append1)
      then show ?thesis using ih bl by simp
    qed
  qed
qed

lemma leading_zeros_toBytes:
  "length (takeWhile (\<lambda>b. b = 0) (toBytes k)) = 32 - byteLength (unat k)"
  unfolding toBytes_def by (rule takeWhile_zero_rev_le_bytes) (rule unat_key_less)



lemma horner58_snoc: "horner58 (ds @ [d]) = horner58 ds * 58 + d"
  by (simp add: horner58_def)

lemma horner58_digits58: "horner58 (digits58 n) = n"
proof (induction n rule: digits58.induct)
  case (1 n)
  show ?case
  proof (cases "n = 0")
    case True
    then show ?thesis by (simp add: digits58.simps horner58_def)
  next
    case False
    then have "digits58 n = digits58 (n div 58) @ [n mod 58]" by (simp add: digits58.simps)
    then show ?thesis using 1 False by (simp add: horner58_snoc)
  qed
qed

lemma digits58_step: "d < 58 \<Longrightarrow> 0 < n * 58 + d \<Longrightarrow> digits58 (n * 58 + d) = digits58 n @ [d]"
proof -
  assume d: "d < 58" and pos: "0 < n * 58 + d"
  have "(n * 58 + d) div 58 = n" using d by simp
  moreover have "(n * 58 + d) mod 58 = d" using d by simp
  ultimately show ?thesis using pos by (subst digits58.simps) simp
qed

lemma digits58_horner58:
  "\<forall>d \<in> set ds. d < 58 \<Longrightarrow> ds = [] \<or> hd ds \<noteq> 0 \<Longrightarrow> digits58 (horner58 ds) = ds"
proof (induction ds rule: rev_induct)
  case Nil
  show ?case by (simp add: horner58_def digits58.simps)
next
  case (snoc d ds)
  show ?case
  proof (cases "ds = []")
    case True
    with snoc.prems have "d < 58" "d \<noteq> 0" by simp_all
    then show ?thesis using True digits58_step [of d 0]
      by (simp add: horner58_def digits58.simps [of 0])
  next
    case False
    with snoc.prems have hd: "hd ds \<noteq> 0" and lt: "\<forall>d \<in> set ds. d < 58" and d: "d < 58"
      by simp_all
    have ih: "digits58 (horner58 ds) = ds" using snoc.IH lt hd by simp
    have "horner58 ds \<noteq> 0"
    proof
      assume "horner58 ds = 0"
      with ih have "ds = []" by (simp add: digits58.simps)
      with False show False by simp
    qed
    then have "0 < horner58 ds * 58 + d" by simp
    then show ?thesis using d ih by (simp add: horner58_snoc digits58_step)
  qed
qed

lemma toBase58_cert:
  assumes "unat k = horner58 ds"
    and "\<forall>d \<in> set ds. d < 58"
    and "ds = [] \<or> hd ds \<noteq> 0"
    and "unat k < 256 ^ j"
    and "j = 0 \<or> 256 ^ (j - 1) \<le> unat k"
  shows "toBase58 k = replicate (32 - j) (CHR ''1'') @ map (\<lambda>d. ALPHABET ! d) ds"
proof -
  have "byteLength (unat k) = j" using assms(4,5) by (rule byteLength_eqI)
  moreover have "digits58 (unat k) = ds"
    using assms(1-3) digits58_horner58 by simp
  ultimately show ?thesis
    by (simp add: toBase58_def bs58_encode_def leading_zeros_toBytes be_value_toBytes)
qed

lemma length_be_digits256: "length (be_digits256 n) = byteLength n"
proof (induction n rule: be_digits256.induct)
  case (1 n)
  show ?case
  proof (cases "n = 0")
    case True
    then show ?thesis by (simp add: be_digits256.simps byteLength.simps)
  next
    case False
    then have "length (be_digits256 n) = Suc (length (be_digits256 (n div 256)))"
      by (subst be_digits256.simps) simp
    then show ?thesis using 1 False by (simp add: byteLength.simps [of n])
  qed
qed

lemma be_value_be_digits256: "be_value (be_digits256 n) = n"
proof (induction n rule: be_digits256.induct)
  case (1 n)
  show ?case
  proof (cases "n = 0")
    case True
    then show ?thesis by (simp add: be_digits256.simps be_value_def)
  next
    case False
    have u: "unat (of_nat (n mod 256) :: byte) = n mod 256"
      by (simp add: unat_of_nat)
    have "be_digits256 n = be_digits256 (n div 256) @ [of_nat (n mod 256)]"
      using False by (subst be_digits256.simps) simp
    then show ?thesis using 1 False u by (simp add: be_value_snoc)
  qed
qed

lemma be_value_zero_prefix: "be_value (replicate z 0 @ bs) = be_value bs"
  by (induction z) (simp_all add: be_value_def)

lemma PublicKey_of_string_cert:
  assumes "value58 0 s = Some n"
    and "length (takeWhile (\<lambda>c. c = CHR ''1'') s) = z"
    and "n < 256 ^ (32 - z)"
    and "z = 32 \<or> 256 ^ (31 - z) \<le> n"
    and "z \<le> 32"
  shows "PublicKey_of_string s = Inr (of_nat n)"
proof -
  have "byteLength n = 32 - z"
    using assms(3,4,5) by (intro byteLength_eqI) auto
  then have "length (replicate z (0::byte) @ be_digits256 n) = 32"
    using assms(5) by (simp add: length_be_digits256)
  then show ?thesis
    using assms(1,2)
    by (simp add: PublicKey_of_string_def bs58_decode_def bind_err_def
        be_value_zero_prefix be_value_be_digits256)
qed

lemma owner_literal:
  "PublicKey_of_string ''EJBCNzigNdKMiCueXNaYn3CccMJqmB8DLPZKgfeTWQrh'' = Inr ownerPubkey_value"
proof -
  have "PublicKey_of_string ''EJBCNzigNdKMiCueXNaYn3CccMJqmB8DLPZKgfeTWQrh''
      = Inr (of_nat 89357111230538540455519446409496520932709237870236781018993200798703400307910)"
    by (rule PublicKey_of_string_cert [where z = 0]) (simp_all add: ALPHABET_def)
  then show ?thesis by (simp add: ownerPubkey_value_def)
qed

lemma tenant_literal:
  "PublicKey_of_string ''EGikG1URSBTi3Dc2AHwTV4HBDWu1KmbcD63rTbYWv9Cu'' = Inr tenantPubkey_value"
proof -
  have "PublicKey_of_string ''EGikG1URSBTi3Dc2AHwTV4HBDWu1KmbcD63rTbYWv9Cu''
      = Inr (of_nat 89188397975466254446035603587187133792764040584017978595931686333023616237002)"
    by (rule PublicKey_of_string_cert [where z = 0]) (simp_all add: ALPHABET_def)
  then show ?thesis by (simp add: tenantPubkey_value_def)
qed


lemma toArray_le_fits:
  "0 < len \<Longrightarrow> n < 256 ^ len \<Longrightarrow> toArray_le n len = Inr (le_bytes len n)"
  by (simp add: toArray_le_def byteLength_le_iff)

section \<open>The initialize instruction\<close>

lemma initContract_data_eq:
  "initContract_data owner tenant agreement =
     Inr (0 # toBytes owner @ toBytes tenant @ toBytes agreement
            @ le_bytes 64 1000 @ le_bytes 64 500 @ le_bytes 8 11 @ le_bytes 8 1
            @ le_bytes 16 2022)"
  by (simp add: initContract_data_def bind_err_def toArray_le_fits)

text \<open>
  Claim C1. The data of the initialize instruction is the byte 0, the owner's 32 bytes,
  the tenant's 32 bytes and the agreement key's 32 bytes, and then the five amounts in
  little-endian order. The second argument of \<^verbatim>\<open>toArray\<close> counts bytes, and the source
  passes 64, 64, 8, 8 and 16: the deposit and the rent take 64 bytes each, the duration
  and the start month 8 bytes each, the start year 16 bytes, and the buffer is 257 bytes
  long, where widths of 8, 8, 1, 1 and 2 bytes would give 117.
\<close>

theorem initContract_data_widths:
  "initContract_data owner tenant agreement =
     Inr (0 # toBytes owner @ toBytes tenant @ toBytes agreement
            @ le_bytes 64 1000 @ le_bytes 64 500 @ le_bytes 8 11 @ le_bytes 8 1
            @ le_bytes 16 2022)
   \<and> length (0 # toBytes owner @ toBytes tenant @ toBytes agreement
            @ le_bytes 64 1000 @ le_bytes 64 500 @ le_bytes 8 11 @ le_bytes 8 1
            @ le_bytes 16 2022) = 257"
  by (simp add: initContract_data_eq)

text \<open>
  Claim C9. Every transaction \<^verbatim>\<open>initContract\<close> submits holds one instruction whose
  second account (the escrow slot) is the agreement key of the session and whose data
  carries the agreement key's bytes at offset 65, where the escrow argument lies.
\<close>

theorem initContract_escrow_is_agreement:
  assumes "tx \<in> set (fst (initContract s))"
  shows "\<exists>agreement program d.
           agreementPubkey s = Some agreement
         \<and> instructions tx =
             [TransactionInstruction
                [\<lparr>pubkey = agreement, isSigner = False, isWritable = True\<rparr>,
                 \<lparr>pubkey = agreement, isSigner = False, isWritable = True\<rparr>,
                 \<lparr>pubkey = SYSVAR_RENT_PUBKEY, isSigner = False, isWritable = False\<rparr>]
                program d]
         \<and> take 32 (drop 65 d) = toBytes agreement"
  using assms
  by (auto simp: initContract_def initContract_instruction_def initContract_data_eq
      bind_err_def Let_def split: option.splits if_splits)

theorem initContract_escrow_is_agreement_witness:
  "\<lparr>instructions =
      [TransactionInstruction
         [\<lparr>pubkey = 7, isSigner = False, isWritable = True\<rparr>,
          \<lparr>pubkey = 7, isSigner = False, isWritable = True\<rparr>,
          \<lparr>pubkey = SYSVAR_RENT_PUBKEY, isSigner = False, isWritable = False\<rparr>]
         9
         (0 # toBytes ownerPubkey_value @ toBytes tenantPubkey_value @ toBytes 7
            @ le_bytes 64 1000 @ le_bytes 64 500 @ le_bytes 8 11 @ le_bytes 8 1
            @ le_bytes 16 2022)],
    signers = [5]\<rparr>
     \<in> set (fst (initContract example_initialized))
   \<and> agreementPubkey example_initialized = Some 7
   \<and> take 32 (drop 65
        (0 # toBytes ownerPubkey_value @ toBytes tenantPubkey_value @ toBytes 7
           @ le_bytes 64 1000 @ le_bytes 64 500 @ le_bytes 8 11 @ le_bytes 8 1
           @ le_bytes 16 2022)) = toBytes 7"
proof -
  let ?tx = "\<lparr>instructions =
      [TransactionInstruction
         [\<lparr>pubkey = 7, isSigner = False, isWritable = True\<rparr>,
          \<lparr>pubkey = 7, isSigner = False, isWritable = True\<rparr>,
          \<lparr>pubkey = SYSVAR_RENT_PUBKEY, isSigner = False, isWritable = False\<rparr>]
         9
         (0 # toBytes ownerPubkey_value @ toBytes tenantPubkey_value @ toBytes 7
            @ le_bytes 64 1000 @ le_bytes 64 500 @ le_bytes 8 11 @ le_bytes 8 1
            @ le_bytes 16 2022)],
    signers = [5]\<rparr>"
  have h: "?tx \<in> set (fst (initContract example_initialized))"
    by (simp add: initContract_def initContract_instruction_def initContract_data_eq
        bind_err_def example_initialized_def example_session_def example_connection_def)
  show ?thesis
    using h initContract_escrow_is_agreement [OF h] by auto
qed

section \<open>Provisioning\<close>

lemma checkProgram_with_ready:
  assumes "createKeypairFromFile files = Inr g" and "connection s = Some c"
    and "getAccountInfo c g = Some info" and "executable info" and "payer s = Some p"
  shows "checkProgram_with sha256 n files s =
     (let seed = AGREEMENT_SEED ownerPubkey_value tenantPubkey_value;
          agreement = createWithSeed sha256 p seed g;
          s' = s\<lparr>programId := Some g, ownerPubkey := Some ownerPubkey_value,
                 tenantPubkey := Some tenantPubkey_value, agreementPubkey := Some agreement\<rparr>
      in (case getAccountInfo c agreement of
            Some agreementAccount \<Rightarrow> ([], None, s')
          | None \<Rightarrow>
              let transaction =
                    \<lparr>instructions =
                       [CreateAccountWithSeed p p seed agreement
                          (getMinimumBalanceForRentExemption c n) n g],
                     signers = [p]\<rparr>
              in if sendAndConfirmTransaction c transaction
                 then ([transaction], None, s')
                 else ([transaction], Some SendTransactionError, s')))"
  using assms
  by (simp add: checkProgram_with_def owner_literal tenant_literal Let_def
      split: option.split)

lemma checkProgram_with_cases:
  "fst (checkProgram_with sha256 n files s) = []
   \<or> (\<exists>g c info p. createKeypairFromFile files = Inr g \<and> connection s = Some c
        \<and> getAccountInfo c g = Some info \<and> executable info \<and> payer s = Some p)"
  by (auto simp: checkProgram_with_def owner_literal tenant_literal Let_def
      split: sum.splits option.splits if_splits)

lemma AGREEMENT_SIZE_throws: "AGREEMENT_SIZE = Inl TypeError"
  by (simp add: AGREEMENT_SIZE_def serialize_def AgreementSchema_def new_AgreementAccount_def
      property_def serializeField_def writeU8_def writeUInt_def writeString_def
      Buffer_from_def bind_err_def)

lemma checkProgram_throws: "checkProgram sha256 files s = ([], Some TypeError, s)"
  by (simp add: checkProgram_def AGREEMENT_SIZE_throws)

text \<open>
  Claim C5. One call of \<^verbatim>\<open>checkProgram\<close> submits at most one transaction, and when the
  network reports an account at the derived agreement address it submits none. This holds
  of the body for every value of the size constant, and of the function as the client
  runs it.
\<close>

theorem checkProgram_existing_account:
  "length (fst (checkProgram_with sha256 n files s)) \<le> 1
   \<and> (\<forall>c p g. connection s = Some c \<and> payer s = Some p \<and> createKeypairFromFile files = Inr g
        \<and> getAccountInfo c
             (createWithSeed sha256 p (AGREEMENT_SEED ownerPubkey_value tenantPubkey_value) g)
           \<noteq> None
      \<longrightarrow> fst (checkProgram_with sha256 n files s) = [])
   \<and> length (fst (checkProgram sha256 files s)) \<le> 1
   \<and> (\<forall>c p g. connection s = Some c \<and> payer s = Some p \<and> createKeypairFromFile files = Inr g
        \<and> getAccountInfo c
             (createWithSeed sha256 p (AGREEMENT_SEED ownerPubkey_value tenantPubkey_value) g)
           \<noteq> None
      \<longrightarrow> fst (checkProgram sha256 files s) = [])"
proof (intro conjI allI impI)
  show "length (fst (checkProgram_with sha256 n files s)) \<le> 1"
    using checkProgram_with_cases [of sha256 n files s]
    by (auto simp: checkProgram_with_ready Let_def split: option.splits)
next
  fix c p g
  assume a: "connection s = Some c \<and> payer s = Some p \<and> createKeypairFromFile files = Inr g
        \<and> getAccountInfo c
             (createWithSeed sha256 p (AGREEMENT_SEED ownerPubkey_value tenantPubkey_value) g)
           \<noteq> None"
  show "fst (checkProgram_with sha256 n files s) = []"
    using checkProgram_with_cases [of sha256 n files s] a
    by (auto simp: checkProgram_with_ready Let_def split: option.splits)
next
  show "length (fst (checkProgram sha256 files s)) \<le> 1"
    by (simp add: checkProgram_throws)
next
  fix c p g
  show "fst (checkProgram sha256 files s) = []"
    by (simp add: checkProgram_throws)
qed

theorem checkProgram_existing_account_witness:
  "connection (example_session True) = Some (example_connection True)
   \<and> payer (example_session True) = Some 5
   \<and> createKeypairFromFile example_files = Inr 9
   \<and> getAccountInfo (example_connection True)
        (createWithSeed example_sha256 5
           (AGREEMENT_SEED ownerPubkey_value tenantPubkey_value) 9) \<noteq> None
   \<and> fst (checkProgram_with example_sha256 131 example_files (example_session True)) = []
   \<and> length (fst (checkProgram_with example_sha256 131 example_files (example_session True)))
       \<le> 1
   \<and> fst (checkProgram example_sha256 example_files (example_session True)) = []
   \<and> length (fst (checkProgram example_sha256 example_files (example_session True))) \<le> 1"
  using checkProgram_existing_account [of example_sha256 131 example_files "example_session True"]
  by (simp add: example_session_def example_connection_def example_files_def)

text \<open>
  When the program is deployed and executable and the network reports no account at the
  derived address, the body submits exactly one transaction, signed by the payer, with one
  create-account instruction: funded by the payer, with the payer as base key and the
  agreement seed, for the derived address, owned by the program, with the value of the
  size constant as space and the rent-exemption minimum the network returns for that
  value.
\<close>

lemma checkProgram_with_creates_account:
  assumes "createKeypairFromFile files = Inr g" and "connection s = Some c"
    and "getAccountInfo c g = Some info" and "executable info" and "payer s = Some p"
    and "getAccountInfo c
           (createWithSeed sha256 p (AGREEMENT_SEED ownerPubkey_value tenantPubkey_value) g)
         = None"
  shows "fst (checkProgram_with sha256 n files s) =
           [\<lparr>instructions =
               [CreateAccountWithSeed p p
                  (AGREEMENT_SEED ownerPubkey_value tenantPubkey_value)
                  (createWithSeed sha256 p
                     (AGREEMENT_SEED ownerPubkey_value tenantPubkey_value) g)
                  (getMinimumBalanceForRentExemption c n) n g],
             signers = [p]\<rparr>]"
  using assms by (simp add: checkProgram_with_ready Let_def)


section \<open>The derived address\<close>

text \<open>
  When the body ends without an error, the agreement address it leaves in the module
  variables is \<open>createWithSeed\<close> of the payer's key, the agreement seed and the
  program's key.
\<close>

lemma checkProgram_with_address:
  assumes "checkProgram_with sha256 n files s = (txs, None, t)"
  shows "\<exists>p g. payer s = Some p \<and> createKeypairFromFile files = Inr g
           \<and> agreementPubkey t =
               Some (createWithSeed sha256 p
                       (AGREEMENT_SEED ownerPubkey_value tenantPubkey_value) g)"
  using assms
  by (auto simp: checkProgram_with_def owner_literal tenant_literal Let_def
      split: sum.splits option.splits if_splits)

section \<open>The agreement seed\<close>

text \<open>The text form of a key determines the key.\<close>

lemma length_ALPHABET: "length ALPHABET = 58"
  by (simp add: ALPHABET_def)

lemma distinct_ALPHABET: "distinct ALPHABET"
  by (simp add: ALPHABET_def)

lemma ALPHABET_0: "ALPHABET ! 0 = CHR ''1''"
  by (simp add: ALPHABET_def)

lemma ALPHABET_inj: "d < 58 \<Longrightarrow> e < 58 \<Longrightarrow> ALPHABET ! d = ALPHABET ! e \<Longrightarrow> d = e"
  using distinct_ALPHABET length_ALPHABET by (simp add: nth_eq_iff_index_eq)

lemma digits58_lt: "d \<in> set (digits58 n) \<Longrightarrow> d < 58"
proof (induction n rule: digits58.induct)
  case (1 n)
  show ?case
  proof (cases "n = 0")
    case True
    with "1.prems" show ?thesis by (simp add: digits58.simps)
  next
    case False
    then have "digits58 n = digits58 (n div 58) @ [n mod 58]"
      by (subst digits58.simps) simp
    with "1.prems" have "d \<in> set (digits58 (n div 58)) \<or> d = n mod 58" by auto
    then show ?thesis using "1.IH" False by auto
  qed
qed

lemma digits58_hd: "n \<noteq> 0 \<Longrightarrow> digits58 n \<noteq> [] \<and> hd (digits58 n) \<noteq> 0"
proof (induction n rule: digits58.induct)
  case (1 n)
  from "1.prems" have eq: "digits58 n = digits58 (n div 58) @ [n mod 58]"
    by (subst digits58.simps) simp
  show ?case
  proof (cases "n div 58 = 0")
    case True
    then have "n mod 58 = n" by simp
    with True eq "1.prems" show ?thesis by (simp add: digits58.simps [of 0])
  next
    case False
    with "1.IH" "1.prems" have "digits58 (n div 58) \<noteq> [] \<and> hd (digits58 (n div 58)) \<noteq> 0"
      by simp
    with eq show ?thesis by simp
  qed
qed

lemma digits58_zero: "digits58 0 = []"
  by (simp add: digits58.simps)

lemma text58_no_leader: "text58 n = [] \<or> hd (text58 n) \<noteq> CHR ''1''"
proof (cases "n = 0")
  case True
  then show ?thesis by (simp add: text58_def digits58_zero)
next
  case False
  then have ne: "digits58 n \<noteq> []" and h: "hd (digits58 n) \<noteq> 0"
    using digits58_hd by auto
  from ne have "hd (digits58 n) \<in> set (digits58 n)" by simp
  then have lt: "hd (digits58 n) < 58" by (rule digits58_lt)
  have "ALPHABET ! hd (digits58 n) \<noteq> ALPHABET ! 0"
    using ALPHABET_inj [OF lt, of 0] h by auto
  then show ?thesis using ne by (simp add: text58_def hd_map ALPHABET_0)
qed

lemma text58_inj: "text58 m = text58 n \<Longrightarrow> m = n"
proof -
  assume "text58 m = text58 n"
  then have "map (\<lambda>d. ALPHABET ! d) (digits58 m) = map (\<lambda>d. ALPHABET ! d) (digits58 n)"
    by (simp add: text58_def)
  moreover have "inj_on (\<lambda>d. ALPHABET ! d) (set (digits58 m) \<union> set (digits58 n))"
    by (rule inj_onI) (auto dest!: digits58_lt intro: ALPHABET_inj)
  ultimately have "digits58 m = digits58 n"
    by (rule inj_on_map_eq_map [THEN iffD1, rotated])
  then have "horner58 (digits58 m) = horner58 (digits58 n)" by simp
  then show ?thesis by (simp add: horner58_digits58)
qed

lemma dropWhile_leader:
  "ys = [] \<or> hd ys \<noteq> x \<Longrightarrow> dropWhile (\<lambda>c. c = x) (replicate z x @ ys) = ys"
proof (induction z)
  case 0
  then show ?case by (cases ys) auto
next
  case (Suc z)
  then show ?case by simp
qed

lemma toBase58_text58:
  "toBase58 k = replicate (32 - byteLength (unat k)) (CHR ''1'') @ text58 (unat k)"
  by (simp add: toBase58_def bs58_encode_def leading_zeros_toBytes be_value_toBytes text58_def)

lemma toBase58_inj: "toBase58 k1 = toBase58 k2 \<Longrightarrow> k1 = k2"
proof -
  assume e: "toBase58 k1 = toBase58 k2"
  have "dropWhile (\<lambda>c. c = CHR ''1'') (toBase58 k) = text58 (unat k)" for k
    unfolding toBase58_text58 by (rule dropWhile_leader) (rule text58_no_leader)
  with e have "text58 (unat k1) = text58 (unat k2)" by metis
  then have "unat k1 = unat k2" by (rule text58_inj)
  then show ?thesis by (rule word_unat_eq_iff [THEN iffD2])
qed

lemma AGREEMENT_SEED_inj:
  assumes "AGREEMENT_SEED o1 t1 = AGREEMENT_SEED o2 t2"
    and "length (toString o1) = length (toString o2)
       \<or> length (toString t1) = length (toString t2)"
  shows "o1 = o2 \<and> t1 = t2"
proof -
  from assms(1) have cat: "toString o1 @ toString t1 = toString o2 @ toString t2"
    by (simp add: AGREEMENT_SEED_def)
  then have "length (toString o1) + length (toString t1)
           = length (toString o2) + length (toString t2)"
    by (metis length_append)
  with assms(2) have "length (toString o1) = length (toString o2)" by auto
  with cat have "toString o1 = toString o2 \<and> toString t1 = toString t2" by simp
  then show ?thesis by (auto simp: toString_def dest: toBase58_inj)
qed

lemma replicate_numeral:
  "replicate (numeral k) x = x # replicate (pred_numeral k) x"
  by (simp only: numeral_eq_Suc [of k] replicate.simps)

lemma toBase58_owner: "toBase58 ownerPubkey_value = ''EJBCNzigNdKMiCueXNaYn3CccMJqmB8DLPZKgfeTWQrh''"
proof -
  have "toBase58 ownerPubkey_value = replicate (32 - 32) (CHR ''1'') @ map (\<lambda>d. ALPHABET ! d) [13, 17, 10, 11, 21, 57, 41, 39, 21, 36, 18, 20, 41, 11, 52, 37, 30, 21, 33, 31, 45, 2, 11, 35, 35, 20, 17, 48, 44, 10, 7, 12, 19, 22, 32, 18, 39, 38, 37, 26, 29, 23, 49, 40]"
    by (rule toBase58_cert) (simp_all add: horner58_def ownerPubkey_value_def)
  then show ?thesis by (simp add: ALPHABET_def replicate_numeral)
qed

lemma toBase58_tenant: "toBase58 tenantPubkey_value = ''EGikG1URSBTi3Dc2AHwTV4HBDWu1KmbcD63rTbYWv9Cu''"
proof -
  have "toBase58 tenantPubkey_value = replicate (32 - 32) (CHR ''1'') @ map (\<lambda>d. ALPHABET ! d) [13, 15, 41, 43, 15, 0, 27, 24, 25, 10, 26, 41, 2, 12, 35, 1, 9, 16, 54, 26, 28, 3, 16, 10, 12, 29, 52, 0, 18, 44, 34, 35, 12, 5, 2, 49, 26, 34, 31, 29, 53, 8, 11, 52]"
    by (rule toBase58_cert) (simp_all add: horner58_def tenantPubkey_value_def)
  then show ?thesis by (simp add: ALPHABET_def replicate_numeral)
qed

lemma toBase58_1: "toBase58 1 = ''11111111111111111111111111111112''"
proof -
  have "toBase58 1 = replicate (32 - 1) (CHR ''1'') @ map (\<lambda>d. ALPHABET ! d) [1]"
    by (rule toBase58_cert) (simp_all add: horner58_def)
  then show ?thesis by (simp add: ALPHABET_def replicate_numeral)
qed

lemma toBase58_115: "toBase58 115 = ''11111111111111111111111111111112z''"
proof -
  have "toBase58 115 = replicate (32 - 1) (CHR ''1'') @ map (\<lambda>d. ALPHABET ! d) [1, 57]"
    by (rule toBase58_cert) (simp_all add: horner58_def)
  then show ?thesis by (simp add: ALPHABET_def replicate_numeral)
qed

lemma toBase58_2_240: "toBase58 (2 ^ 240) = ''1tJ93RwaVfE1PEMxd5rpZZuPtLCwbEaDCrNBhAy8Cw''"
proof -
  have "toBase58 (2 ^ 240) = replicate (32 - 31) (CHR ''1'') @ map (\<lambda>d. ALPHABET ! d) [51, 17, 8, 2, 24, 54, 33, 28, 38, 13, 0, 22, 13, 20, 55, 36, 4, 49, 47, 32, 32, 52, 22, 51, 19, 11, 54, 34, 13, 33, 12, 11, 49, 21, 10, 40, 9, 56, 7, 11, 54]"
    by (rule toBase58_cert) (simp_all add: horner58_def)
  then show ?thesis by (simp add: ALPHABET_def replicate_numeral)
qed

lemma toBase58_big: "toBase58 (57 * 58 ^ 42 + 2 ^ 240) = ''z1tJ93RwaVfE1PEMxd5rpZZuPtLCwbEaDCrNBhAy8Cw''"
proof -
  have "toBase58 (57 * 58 ^ 42 + 2 ^ 240) = replicate (32 - 32) (CHR ''1'') @ map (\<lambda>d. ALPHABET ! d) [57, 0, 51, 17, 8, 2, 24, 54, 33, 28, 38, 13, 0, 22, 13, 20, 55, 36, 4, 49, 47, 32, 32, 52, 22, 51, 19, 11, 54, 34, 13, 33, 12, 11, 49, 21, 10, 40, 9, 56, 7, 11, 54]"
    by (rule toBase58_cert) (simp_all add: horner58_def)
  then show ?thesis by (simp add: ALPHABET_def replicate_numeral)
qed

lemma toBase58_0: "toBase58 0 = ''11111111111111111111111111111111''"
proof -
  have "toBase58 0 = replicate (32 - 0) (CHR ''1'') @ map (\<lambda>d. ALPHABET ! d) []"
    by (rule toBase58_cert) (simp_all add: horner58_def)
  then show ?thesis by (simp add: ALPHABET_def replicate_numeral)
qed

lemma toBase58_SYSVAR_RENT: "toBase58 SYSVAR_RENT_PUBKEY = ''SysvarRent111111111111111111111111111111111''"
proof -
  have "toBase58 SYSVAR_RENT_PUBKEY = replicate (32 - 32) (CHR ''1'') @ map (\<lambda>d. ALPHABET ! d) [25, 56, 50, 53, 33, 49, 24, 37, 45, 51, 0, 0, 0, 0, 0, 0, 0, 0, 0, 0, 0, 0, 0, 0, 0, 0, 0, 0, 0, 0, 0, 0, 0, 0, 0, 0, 0, 0, 0, 0, 0, 0, 0]"
    by (rule toBase58_cert) (simp_all add: horner58_def SYSVAR_RENT_PUBKEY_def)
  then show ?thesis by (simp add: ALPHABET_def replicate_numeral)
qed


text \<open>
  Claim C4, as stated: distinct (owner, tenant) pairs have distinct seeds. The text form
  of a key is between 32 and 44 characters long and the seed puts the two texts side by
  side, so a character can move from the end of the owner's text to the start of the
  tenant's: the owner \<open>1\<close> (\<^verbatim>\<open>1111111111111111111111111111111\<close> then \<^verbatim>\<open>2\<close>) with
  the tenant \<^verbatim>\<open>z1tJ93...\<close>, and the owner \<open>115\<close> (the same text then \<^verbatim>\<open>z\<close>) with the
  tenant \<^verbatim>\<open>1tJ93...\<close>, have the same seed, and with it the same derived address.
\<close>

theorem seed_collision:
  "AGREEMENT_SEED 1 (57 * 58 ^ 42 + 2 ^ 240) = AGREEMENT_SEED 115 (2 ^ 240)
   \<and> ((1 :: PublicKey), (57 * 58 ^ 42 + 2 ^ 240 :: PublicKey)) \<noteq> (115, 2 ^ 240)"
  by (simp only: AGREEMENT_SEED_def toString_def toBase58_1 toBase58_115 toBase58_2_240
      toBase58_big) simp

text \<open>
  Claim C4, amended: two distinct (owner, tenant) pairs have distinct seeds whenever the
  two owners' texts, or the two tenants' texts, have the same length.
\<close>

theorem seeds_differ_for_equal_length_keys:
  assumes "(o1, t1) \<noteq> (o2, t2)"
    and "length (toString o1) = length (toString o2)
       \<or> length (toString t1) = length (toString t2)"
  shows "AGREEMENT_SEED o1 t1 \<noteq> AGREEMENT_SEED o2 t2"
  using assms AGREEMENT_SEED_inj [of o1 t1 o2 t2] by auto

theorem seeds_differ_for_equal_length_keys_witness:
  "(ownerPubkey_value, tenantPubkey_value) \<noteq> (tenantPubkey_value, ownerPubkey_value)
   \<and> (length (toString ownerPubkey_value) = length (toString tenantPubkey_value)
      \<or> length (toString tenantPubkey_value) = length (toString ownerPubkey_value))
   \<and> AGREEMENT_SEED ownerPubkey_value tenantPubkey_value
       \<noteq> AGREEMENT_SEED tenantPubkey_value ownerPubkey_value"
proof -
  have d: "(ownerPubkey_value, tenantPubkey_value) \<noteq> (tenantPubkey_value, ownerPubkey_value)"
    by (simp add: ownerPubkey_value_def tenantPubkey_value_def)
  have l: "length (toString ownerPubkey_value) = length (toString tenantPubkey_value)
      \<or> length (toString tenantPubkey_value) = length (toString ownerPubkey_value)"
    by (simp add: toString_def toBase58_owner toBase58_tenant)
  show ?thesis
    using d l seeds_differ_for_equal_length_keys [OF d l] by simp
qed

subsection \<open>The base key of the derivation\<close>

text \<open>
  The payer's key is the base key: its 32 bytes are the first bytes that are hashed, so
  two payers never hash the same bytes. Whether two different inputs can have the same
  digest is a property of SHA-256 and not of this code.
\<close>

lemma toBytes_inj: "toBytes k1 = toBytes k2 \<Longrightarrow> k1 = k2"
proof -
  assume "toBytes k1 = toBytes k2"
  then have "be_value (toBytes k1) = be_value (toBytes k2)" by simp
  then have "unat k1 = unat k2" by (simp add: be_value_toBytes)
  then show ?thesis by (rule word_unat_eq_iff [THEN iffD2])
qed

lemma createWithSeed_buffer_base:
  "createWithSeed_buffer p1 seed1 g1 = createWithSeed_buffer p2 seed2 g2 \<Longrightarrow> p1 = p2"
  by (auto simp: createWithSeed_buffer_def dest: toBytes_inj)

section \<open>The account schema\<close>

lemma le_value_le_bytes: "le_value (le_bytes w n) = n mod 256 ^ w"
proof (induction w arbitrary: n)
  case 0
  show ?case by (simp add: le_value_def)
next
  case (Suc w)
  have u: "unat (of_nat (n mod 256) :: byte) = n mod 256"
    by (simp add: unat_of_nat)
  have "le_value (le_bytes (Suc w) n) = n mod 256 + 256 * le_value (le_bytes w (n div 256))"
    by (simp add: le_value_def u)
  also have "\<dots> = n mod 256 + 256 * ((n div 256) mod 256 ^ w)"
    by (simp add: Suc)
  also have "\<dots> = n mod 256 ^ Suc w"
    by (simp add: mod_mult2_eq)
  finally show ?case .
qed

lemma readBuffer_append:
  "length b = len \<Longrightarrow> readBuffer len (b @ rest) = Inr (b, rest)"
  by (simp add: readBuffer_def)

lemma readUInt_le_bytes:
  "n < 256 ^ w \<Longrightarrow> readUInt w (le_bytes w n @ rest) = Inr (n, rest)"
  by (simp add: readUInt_def readBuffer_append bind_err_def le_value_le_bytes)

lemma utf8_first_ascii: "unat b < 128 \<Longrightarrow> utf8_first (b # bs) = Some 1"
  by (simp add: utf8_first_def in_range_def)

lemma utf8_valid_ascii: "\<forall>b \<in> set bs. unat b < 128 \<Longrightarrow> utf8_valid bs"
  by (induction bs) (simp_all add: utf8_first_ascii)

lemma unat_of_char: "unat (of_char c :: byte) = of_char c"
proof -
  have "(of_char c :: nat) < 256" by simp
  then have "unat (of_nat (of_char c) :: byte) = of_char c"
    by (simp add: unat_of_nat)
  then show ?thesis by (simp add: of_nat_of_char)
qed

lemma textDecoder_decode_ascii:
  assumes "ascii s"
  shows "textDecoder_decode (map of_char s) = Some s"
proof -
  let ?bs = "map of_char s :: byte list"
  have small: "\<forall>b \<in> set ?bs. unat b < 128"
    using assms by (auto simp: ascii_def unat_of_char)
  then have v: "utf8_valid ?bs" by (rule utf8_valid_ascii)
  have nobom: "take 3 ?bs \<noteq> [0xEF, 0xBB, 0xBF]"
  proof
    assume e: "take 3 ?bs = [0xEF, 0xBB, 0xBF]"
    then have "(0xEF :: byte) \<in> set (take 3 ?bs)" by simp
    then have "(0xEF :: byte) \<in> set ?bs" by (rule in_set_takeD)
    with small have "unat (0xEF :: byte) < 128" by blast
    then show False by simp
  qed
  have rt: "map (\<lambda>b. char_of (unat b)) ?bs = s"
    by (simp add: unat_of_char comp_def)
  show ?thesis using v nobom rt by (simp add: textDecoder_decode_def)
qed

lemma readString_text:
  assumes "ascii s" and "length s < 2 ^ 32" and "n = length s"
  shows "readString (le_bytes 4 n @ map of_char s @ rest) = Inr (Str s, rest)"
proof -
  have "n < 256 ^ 4" using assms(2,3) by simp
  then have "readUInt 4 (le_bytes 4 n @ map of_char s @ rest) = Inr (n, map of_char s @ rest)"
    by (rule readUInt_le_bytes)
  then show ?thesis
    using assms(1,3)
    by (simp add: readString_def bind_err_def readBuffer_append textDecoder_decode_ascii)
qed

lemma writeString_text:
  "length s < 2 ^ 32 \<Longrightarrow> writeString (Str s) = Inr (le_bytes 4 (length s) @ map of_char s)"
  by (simp add: writeString_def Buffer_from_def writeU32_def writeUInt_def bind_err_def)


lemmas readUInt_le_bytes_end = readUInt_le_bytes [where rest = "[]", simplified]

lemma serialize_text_record:
  assumes "length so < 2 ^ 32" and "length st < 2 ^ 32" and "length se < 2 ^ 32"
    and "0 \<le> d \<and> d < 2 ^ 53" and "0 \<le> r \<and> r < 2 ^ 53"
    and "0 \<le> du \<and> du < 256" and "0 \<le> rp \<and> rp < 256" and "0 \<le> m \<and> m < 256"
    and "0 \<le> y \<and> y < 65536" and "0 \<le> x \<and> x < 256"
  shows "serialize AgreementSchema
           \<lparr>status = v, owner_pubkey = Str so, tenant_pubkey = Str st,
            security_escrow_pubkey = Str se, security_deposit = Number d,
            rent_amount = Number r, duration = Number du, remaining_payments = Number rp,
            start_month = Number m, start_year = Number y,
            duration_extension_request = Number x\<rparr>
       = Inr (le_bytes 1 0
              @ le_bytes 4 (length so) @ map of_char so
              @ le_bytes 4 (length st) @ map of_char st
              @ le_bytes 4 (length se) @ map of_char se
              @ le_bytes 8 (nat d) @ le_bytes 8 (nat r)
              @ le_bytes 1 (nat du) @ le_bytes 1 (nat rp) @ le_bytes 1 (nat m)
              @ le_bytes 2 (nat y) @ le_bytes 1 (nat x))"
proof -
  have d: "nat d < 256 ^ 8" using assms(4) by (simp add: nat_less_iff)
  have r: "nat r < 256 ^ 8" using assms(5) by (simp add: nat_less_iff)
  show ?thesis
    using assms d r
    by (simp add: serialize_def AgreementSchema_def property_def serializeField_def
        writeU8_def writeU16_def writeU64_def writeUInt_def writeString_text
        toArray_le_fits bind_err_def del: le_bytes.simps)
qed

lemma deserialize_text_record:
  assumes "ascii so" and "ascii st" and "ascii se"
    and "length so < 2 ^ 32" and "length st < 2 ^ 32" and "length se < 2 ^ 32"
    and "d < 256 ^ 8" and "r < 256 ^ 8"
    and "du < 256" and "rp < 256" and "m < 256" and "y < 65536" and "x < 256"
    and "s0 < 256"
  shows "deserialize AgreementSchema
           (le_bytes 1 s0
              @ le_bytes 4 (length so) @ map of_char so
              @ le_bytes 4 (length st) @ map of_char st
              @ le_bytes 4 (length se) @ map of_char se
              @ le_bytes 8 d @ le_bytes 8 r
              @ le_bytes 1 du @ le_bytes 1 rp @ le_bytes 1 m
              @ le_bytes 2 y @ le_bytes 1 x)
       = Inr \<lparr>status = Undefined, owner_pubkey = Str so, tenant_pubkey = Str st,
              security_escrow_pubkey = Str se, security_deposit = BN d,
              rent_amount = BN r, duration = Number (int du),
              remaining_payments = Number (int rp), start_month = Number (int m),
              start_year = Number (int y), duration_extension_request = Number (int x)\<rparr>"
  using assms
  by (simp add: deserialize_def deserializeStruct_def AgreementSchema_def deserializeField_def
      readUInt_le_bytes readUInt_le_bytes_end readString_text bind_err_def
      new_AgreementAccount_def del: le_bytes.simps)


lemma ascii_key_texts:
  "ascii (toString 0)" "ascii (toString ownerPubkey_value)" "ascii (toString tenantPubkey_value)"
  by (simp_all add: ascii_def toString_def toBase58_0 toBase58_owner toBase58_tenant)

lemma length_key_texts:
  "length (toString 0) = 32" "length (toString ownerPubkey_value) = 44"
  "length (toString tenantPubkey_value) = 44"
  by (simp_all add: toString_def toBase58_0 toBase58_owner toBase58_tenant)

lemma serialize_default: "serialize AgreementSchema (new_AgreementAccount None) = Inl TypeError"
  by (simp add: serialize_def AgreementSchema_def new_AgreementAccount_def property_def
      serializeField_def writeU8_def writeUInt_def writeString_def Buffer_from_def bind_err_def)

lemma serialize_key_record:
  "owner_pubkey a = Key k \<Longrightarrow> serialize AgreementSchema a = Inl TypeError"
  by (simp add: serialize_def AgreementSchema_def property_def serializeField_def
      writeU8_def writeUInt_def writeString_def Buffer_from_def bind_err_def)

text \<open>
  Claim C2. The schema gives the three identity fields the type \<^verbatim>\<open>'string'\<close>, and the
  string writer takes a string only. The default instance holds \<^verbatim>\<open>PublicKey\<close> objects
  there, so encoding it throws a type error and the canonical size has no value. With the
  keys given as their texts a record is encoded in 35 bytes plus the lengths of the three
  texts: 131 bytes for three zero keys, 155 bytes for the owner and the tenant of
  \<^verbatim>\<open>checkProgram\<close> with a zero escrow key.
\<close>

theorem AGREEMENT_SIZE_not_fixed:
  "serialize AgreementSchema (new_AgreementAccount None) = Inl TypeError
   \<and> AGREEMENT_SIZE = Inl TypeError
   \<and> (\<exists>b. serialize AgreementSchema
              ((new_AgreementAccount None)
                 \<lparr>owner_pubkey := Str (toString 0), tenant_pubkey := Str (toString 0),
                  security_escrow_pubkey := Str (toString 0)\<rparr>) = Inr b
          \<and> length b = 131)
   \<and> (\<exists>b. serialize AgreementSchema
              ((new_AgreementAccount None)
                 \<lparr>owner_pubkey := Str (toString ownerPubkey_value),
                  tenant_pubkey := Str (toString tenantPubkey_value),
                  security_escrow_pubkey := Str (toString 0)\<rparr>) = Inr b
          \<and> length b = 155)"
proof (intro conjI)
  show "serialize AgreementSchema (new_AgreementAccount None) = Inl TypeError"
    by (rule serialize_default)
  show "AGREEMENT_SIZE = Inl TypeError"
    by (simp add: AGREEMENT_SIZE_def serialize_default bind_err_def)
  show "\<exists>b. serialize AgreementSchema
              ((new_AgreementAccount None)
                 \<lparr>owner_pubkey := Str (toString 0), tenant_pubkey := Str (toString 0),
                  security_escrow_pubkey := Str (toString 0)\<rparr>) = Inr b
          \<and> length b = 131"
    by (simp add: new_AgreementAccount_def serialize_text_record length_key_texts)
  show "\<exists>b. serialize AgreementSchema
              ((new_AgreementAccount None)
                 \<lparr>owner_pubkey := Str (toString ownerPubkey_value),
                  tenant_pubkey := Str (toString tenantPubkey_value),
                  security_escrow_pubkey := Str (toString 0)\<rparr>) = Inr b
          \<and> length b = 155"
    by (simp add: new_AgreementAccount_def serialize_text_record length_key_texts)
qed

text \<open>
  Claim C3. A record with \<^verbatim>\<open>PublicKey\<close> identities is not encoded at all, so nothing
  comes back. A record with the keys as texts is encoded, and decoding gives a different
  record: the schema names the first field \<^verbatim>\<open>'pub status'\<close>, so the status is neither
  written nor restored (\<^verbatim>\<open>undefined\<close> after decoding), and the two amounts come back
  as \<^verbatim>\<open>BN\<close> objects.
\<close>

theorem decode_encode_loses_record:
  "decode_encode
     \<lparr>status = Number 1, owner_pubkey = Key ownerPubkey_value,
      tenant_pubkey = Key tenantPubkey_value, security_escrow_pubkey = Key 0,
      security_deposit = Number 1000, rent_amount = Number 500, duration = Number 11,
      remaining_payments = Number 11, start_month = Number 1, start_year = Number 2022,
      duration_extension_request = Number 0\<rparr>
     = Inl TypeError
   \<and> decode_encode
     \<lparr>status = Number 1, owner_pubkey = Str (toString ownerPubkey_value),
      tenant_pubkey = Str (toString tenantPubkey_value),
      security_escrow_pubkey = Str (toString 0),
      security_deposit = Number 1000, rent_amount = Number 500, duration = Number 11,
      remaining_payments = Number 11, start_month = Number 1, start_year = Number 2022,
      duration_extension_request = Number 0\<rparr>
     = Inr \<lparr>status = Undefined, owner_pubkey = Str (toString ownerPubkey_value),
            tenant_pubkey = Str (toString tenantPubkey_value),
            security_escrow_pubkey = Str (toString 0),
            security_deposit = BN 1000, rent_amount = BN 500, duration = Number 11,
            remaining_payments = Number 11, start_month = Number 1, start_year = Number 2022,
            duration_extension_request = Number 0\<rparr>"
proof (rule conjI)
  show "decode_encode
     \<lparr>status = Number 1, owner_pubkey = Key ownerPubkey_value,
      tenant_pubkey = Key tenantPubkey_value, security_escrow_pubkey = Key 0,
      security_deposit = Number 1000, rent_amount = Number 500, duration = Number 11,
      remaining_payments = Number 11, start_month = Number 1, start_year = Number 2022,
      duration_extension_request = Number 0\<rparr>
     = Inl TypeError"
    by (simp add: decode_encode_def serialize_def AgreementSchema_def property_def
        serializeField_def writeU8_def writeUInt_def writeString_def Buffer_from_def
        bind_err_def)
next
  have "deserialize AgreementSchema
           (le_bytes 1 0
              @ le_bytes 4 (length (toString ownerPubkey_value))
              @ map of_char (toString ownerPubkey_value)
              @ le_bytes 4 (length (toString tenantPubkey_value))
              @ map of_char (toString tenantPubkey_value)
              @ le_bytes 4 (length (toString 0)) @ map of_char (toString 0)
              @ le_bytes 8 1000 @ le_bytes 8 500
              @ le_bytes 1 11 @ le_bytes 1 11 @ le_bytes 1 1
              @ le_bytes 2 2022 @ le_bytes 1 0)
       = Inr \<lparr>status = Undefined, owner_pubkey = Str (toString ownerPubkey_value),
              tenant_pubkey = Str (toString tenantPubkey_value),
              security_escrow_pubkey = Str (toString 0), security_deposit = BN 1000,
              rent_amount = BN 500, duration = Number (int 11),
              remaining_payments = Number (int 11), start_month = Number (int 1),
              start_year = Number (int 2022), duration_extension_request = Number (int 0)\<rparr>"
    by (rule deserialize_text_record) (simp_all add: ascii_key_texts length_key_texts)
  then show "decode_encode
     \<lparr>status = Number 1, owner_pubkey = Str (toString ownerPubkey_value),
      tenant_pubkey = Str (toString tenantPubkey_value),
      security_escrow_pubkey = Str (toString 0),
      security_deposit = Number 1000, rent_amount = Number 500, duration = Number 11,
      remaining_payments = Number 11, start_month = Number 1, start_year = Number 2022,
      duration_extension_request = Number 0\<rparr>
     = Inr \<lparr>status = Undefined, owner_pubkey = Str (toString ownerPubkey_value),
            tenant_pubkey = Str (toString tenantPubkey_value),
            security_escrow_pubkey = Str (toString 0),
            security_deposit = BN 1000, rent_amount = BN 500, duration = Number 11,
            remaining_payments = Number 11, start_month = Number 1, start_year = Number 2022,
            duration_extension_request = Number 0\<rparr>"
    by (simp add: decode_encode_def serialize_text_record length_key_texts bind_err_def
        del: le_bytes.simps)
qed


lemma readBuffer_ext:
  "readBuffer len rd = Inr (b, rd') \<Longrightarrow> readBuffer len (rd @ ext) = Inr (b, rd' @ ext)"
  by (auto simp: readBuffer_def split: if_splits)

lemma readUInt_ext:
  "readUInt w rd = Inr (n, rd') \<Longrightarrow> readUInt w (rd @ ext) = Inr (n, rd' @ ext)"
  by (auto simp: readUInt_def bind_err_def readBuffer_ext split: sum.splits)

lemma readString_ext:
  assumes "readString rd = Inr (v, rd')"
  shows "readString (rd @ ext) = Inr (v, rd' @ ext)"
proof -
  from assms obtain len r1 where u: "readUInt 4 rd = Inr (len, r1)"
    by (auto simp: readString_def bind_err_def split: sum.splits)
  with assms obtain buf where b: "readBuffer len r1 = Inr (buf, rd')"
    and t: "(case textDecoder_decode buf of None \<Rightarrow> Inl BorshError | Some s \<Rightarrow> Inr (Str s, rd'))
            = Inr (v, rd')"
    by (auto simp: readString_def bind_err_def split: sum.splits option.splits)
  from t have t': "(case textDecoder_decode buf of None \<Rightarrow> Inl BorshError
                    | Some s \<Rightarrow> Inr (Str s, rd' @ ext)) = Inr (v, rd' @ ext)"
    by (auto split: option.splits)
  show ?thesis
    using readUInt_ext [OF u, of ext] readBuffer_ext [OF b, of ext] t'
    by (simp add: readString_def bind_err_def)
qed

lemma deserializeField_ext:
  "deserializeField ft rd = Inr (v, rd') \<Longrightarrow> deserializeField ft (rd @ ext) = Inr (v, rd' @ ext)"
  by (auto simp: deserializeField_def bind_err_def readString_ext
      split: if_splits sum.splits dest: readUInt_ext [where ext = ext])

lemma deserializeFields_ext:
  "deserializeFields schema result rd = Inr (res, rd')
   \<Longrightarrow> deserializeFields schema result (rd @ ext) = Inr (res, rd' @ ext)"
proof (induction schema arbitrary: result rd)
  case Nil
  then show ?case by simp
next
  case (Cons fld flds)
  obtain fieldName fieldType where fld: "fld = (fieldName, fieldType)" by (cases fld)
  from Cons.prems fld obtain v r1 where f: "deserializeField fieldType rd = Inr (v, r1)"
    and rest: "deserializeFields flds (result(fieldName := v)) r1 = Inr (res, rd')"
    by (auto simp: bind_err_def split: sum.splits)
  have "deserializeFields flds (result(fieldName := v)) (r1 @ ext) = Inr (res, rd' @ ext)"
    using rest by (rule Cons.IH)
  then show ?case
    using deserializeField_ext [OF f, of ext] fld by (simp add: bind_err_def)
qed

lemma readUInt_error: "readUInt w rd = Inl e \<Longrightarrow> e = BorshError"
  by (auto simp: readUInt_def readBuffer_def bind_err_def split: if_splits sum.splits)

lemma readString_error: "readString rd = Inl e \<Longrightarrow> e = BorshError"
  by (auto simp: readString_def readBuffer_def bind_err_def
      split: if_splits sum.splits option.splits dest: readUInt_error)

lemma deserializeField_error:
  "deserializeField ft rd = Inl e
   \<Longrightarrow> ft \<in> {''u8'', ''u16'', ''u32'', ''u64'', ''string''} \<Longrightarrow> e = BorshError"
  by (auto simp: deserializeField_def bind_err_def
      split: if_splits sum.splits dest: readUInt_error readString_error)

lemma deserializeFields_error:
  "deserializeFields schema result rd = Inl e \<Longrightarrow> known_types schema \<Longrightarrow> e = BorshError"
proof (induction schema arbitrary: result rd)
  case Nil
  then show ?case by simp
next
  case (Cons fld flds)
  obtain fieldName fieldType where fld: "fld = (fieldName, fieldType)" by (cases fld)
  from Cons.prems(2) fld
  have k: "fieldType \<in> {''u8'', ''u16'', ''u32'', ''u64'', ''string''}"
    and ks: "known_types flds"
    by (auto simp: known_types_def)
  show ?case
  proof (cases "deserializeField fieldType rd")
    case (Inl e')
    with Cons.prems(1) fld have "e = e'" by (simp add: bind_err_def)
    with Inl k show ?thesis by (auto dest: deserializeField_error)
  next
    case (Inr p)
    obtain v r1 where p: "p = (v, r1)" by (cases p)
    with Inr Cons.prems(1) fld
    have "deserializeFields flds (result(fieldName := v)) r1 = Inl e"
      by (simp add: bind_err_def)
    then show ?thesis using ks by (rule Cons.IH)
  qed
qed

lemma known_types_AgreementSchema: "known_types AgreementSchema"
  by (simp add: known_types_def AgreementSchema_def)

lemma deserialize_error: "deserialize AgreementSchema buf = Inl e \<Longrightarrow> e = BorshError"
  using known_types_AgreementSchema
  by (auto simp: deserialize_def deserializeStruct_def bind_err_def
      split: sum.splits if_splits dest: deserializeFields_error)

lemma deserialize_extended:
  assumes "deserialize AgreementSchema buf = Inr a" and "ext \<noteq> []"
  shows "deserialize AgreementSchema (buf @ ext) = Inl BorshError"
proof -
  from assms(1) obtain res where
    f: "deserializeFields AgreementSchema (\<lambda>_. Undefined) buf = Inr (res, [])"
    by (auto simp: deserialize_def deserializeStruct_def bind_err_def
        split: sum.splits if_splits)
  show ?thesis
    using deserializeFields_ext [OF f, of ext] assms(2)
    by (simp add: deserialize_def deserializeStruct_def bind_err_def)
qed





text \<open>
  Decoding either consumes the buffer to its last byte or fails with a \<^verbatim>\<open>BorshError\<close>:
  when a buffer decodes, the same bytes followed by more bytes fail, and so does the buffer
  cut short.
\<close>

lemma deserialize_consumes_buffer:
  assumes "deserialize AgreementSchema buf = Inr a" and "ext \<noteq> []"
  shows "deserialize AgreementSchema (buf @ ext) = Inl BorshError
       \<and> (\<forall>p. p @ ext = buf \<longrightarrow> deserialize AgreementSchema p = Inl BorshError)"
proof (intro conjI allI impI)
  show "deserialize AgreementSchema (buf @ ext) = Inl BorshError"
    using assms by (rule deserialize_extended)
next
  fix p
  assume p: "p @ ext = buf"
  show "deserialize AgreementSchema p = Inl BorshError"
  proof (cases "deserialize AgreementSchema p")
    case (Inl e)
    then show ?thesis using deserialize_error [of p e] by simp
  next
    case (Inr a')
    then have "deserialize AgreementSchema (p @ ext) = Inl BorshError"
      using assms(2) by (rule deserialize_extended)
    with p assms(1) show ?thesis by simp
  qed
qed

text \<open>
  A schema of integer fields only is decoded from buffers of one length, the sum of the
  field widths, and from every buffer of that length.
\<close>

lemma readUInt_length:
  "readUInt w rd = Inr (n, rd') \<Longrightarrow> length rd = w + length rd'"
  by (auto simp: readUInt_def readBuffer_def bind_err_def split: if_splits)

lemma deserializeField_integer_length:
  assumes "deserializeField ft rd = Inr (v, rd')"
    and "ft \<in> {''u8'', ''u16'', ''u32'', ''u64''}"
  shows "length rd = field_width ft + length rd'"
  using assms
  by (auto simp: deserializeField_def field_width_def bind_err_def
      split: if_splits sum.splits dest: readUInt_length)

lemma deserializeFields_integer_length:
  "integer_types schema \<Longrightarrow> deserializeFields schema result rd = Inr (res, rd')
   \<Longrightarrow> length rd = schema_width schema + length rd'"
proof (induction schema arbitrary: result rd)
  case Nil
  then show ?case by (simp add: schema_width_def)
next
  case (Cons fld flds)
  obtain fieldName fieldType where fld: "fld = (fieldName, fieldType)" by (cases fld)
  from Cons.prems(1) fld have k: "fieldType \<in> {''u8'', ''u16'', ''u32'', ''u64''}"
    and ks: "integer_types flds"
    by (auto simp: integer_types_def)
  from Cons.prems(2) fld obtain v r1 where f: "deserializeField fieldType rd = Inr (v, r1)"
    and rest: "deserializeFields flds (result(fieldName := v)) r1 = Inr (res, rd')"
    by (auto simp: bind_err_def split: sum.splits)
  have "length r1 = schema_width flds + length rd'"
    using ks rest by (rule Cons.IH)
  moreover have "length rd = field_width fieldType + length r1"
    using f k by (rule deserializeField_integer_length)
  ultimately show ?case using fld by (simp add: schema_width_def)
qed

lemma deserialize_integer_schema_length:
  assumes "integer_types schema" and "deserialize schema buf = Inr a"
  shows "length buf = schema_width schema"
proof -
  from assms(2) obtain res where
    f: "deserializeFields schema (\<lambda>_. Undefined) buf = Inr (res, [])"
    by (auto simp: deserialize_def deserializeStruct_def bind_err_def
        split: sum.splits if_splits)
  show ?thesis
    using deserializeFields_integer_length [OF assms(1) f] by simp
qed

lemma readUInt_enough:
  "w \<le> length rd \<Longrightarrow> \<exists>n rd'. readUInt w rd = Inr (n, rd') \<and> length rd' = length rd - w"
  by (simp add: readUInt_def readBuffer_def bind_err_def)

lemma deserializeField_integer_enough:
  assumes "ft \<in> {''u8'', ''u16'', ''u32'', ''u64''}" and "field_width ft \<le> length rd"
  shows "\<exists>v rd'. deserializeField ft rd = Inr (v, rd')
           \<and> length rd' = length rd - field_width ft"
proof -
  from assms(1) consider "ft = ''u8''" | "ft = ''u16''" | "ft = ''u32''" | "ft = ''u64''"
    by auto
  then show ?thesis
  proof cases
    case 1
    with assms(2) have "1 \<le> length rd" by (simp add: field_width_def)
    from readUInt_enough [OF this] 1 show ?thesis
      by (auto simp: deserializeField_def field_width_def bind_err_def)
  next
    case 2
    with assms(2) have "2 \<le> length rd" by (simp add: field_width_def)
    from readUInt_enough [OF this] 2 show ?thesis
      by (auto simp: deserializeField_def field_width_def bind_err_def)
  next
    case 3
    with assms(2) have "4 \<le> length rd" by (simp add: field_width_def)
    from readUInt_enough [OF this] 3 show ?thesis
      by (auto simp: deserializeField_def field_width_def bind_err_def)
  next
    case 4
    with assms(2) have "8 \<le> length rd" by (simp add: field_width_def)
    from readUInt_enough [OF this] 4 show ?thesis
      by (auto simp: deserializeField_def field_width_def bind_err_def)
  qed
qed

lemma deserializeFields_integer_enough:
  "integer_types schema \<Longrightarrow> schema_width schema \<le> length rd
   \<Longrightarrow> \<exists>res rd'. deserializeFields schema result rd = Inr (res, rd')
         \<and> length rd' = length rd - schema_width schema"
proof (induction schema arbitrary: result rd)
  case Nil
  then show ?case by (simp add: schema_width_def)
next
  case (Cons fld flds)
  obtain fieldName fieldType where fld: "fld = (fieldName, fieldType)" by (cases fld)
  from Cons.prems(1) fld have k: "fieldType \<in> {''u8'', ''u16'', ''u32'', ''u64''}"
    and ks: "integer_types flds"
    by (auto simp: integer_types_def)
  have w: "schema_width (fld # flds) = field_width fieldType + schema_width flds"
    using fld by (simp add: schema_width_def)
  with Cons.prems(2) have "field_width fieldType \<le> length rd" by simp
  from deserializeField_integer_enough [OF k this]
  obtain v r1 where f: "deserializeField fieldType rd = Inr (v, r1)"
    and l1: "length r1 = length rd - field_width fieldType"
    by blast
  from l1 w Cons.prems(2) have "schema_width flds \<le> length r1" by simp
  from Cons.IH [OF ks this, of "result(fieldName := v)"]
  obtain res rd' where
    r: "deserializeFields flds (result(fieldName := v)) r1 = Inr (res, rd')"
    and l2: "length rd' = length r1 - schema_width flds"
    by blast
  show ?case
    using f r l1 l2 w fld by (simp add: bind_err_def)
qed

lemma deserialize_integer_schema_accepts:
  assumes "integer_types schema" and "length buf = schema_width schema"
  shows "\<exists>a. deserialize schema buf = Inr a"
proof -
  from assms(2) have "schema_width schema \<le> length buf" by simp
  from deserializeFields_integer_enough [OF assms(1) this, of "\<lambda>_. Undefined"] assms(2)
  obtain res where "deserializeFields schema (\<lambda>_. Undefined) buf = Inr (res, [])"
    by auto
  then show ?thesis
    by (simp add: deserialize_def deserializeStruct_def bind_err_def)
qed


end
